theory Spec2Isabelle
  imports Complex_Main "HOL-Library.Multiset" "HOL-Library.Sublist" "HOL-Library.Word"
    "HOL-Library.Signed_Division" "HOL-Library.Product_Lexorder"
begin

section \<open>ssl\_exporter: the data the exporter reads\<close>

text \<open>
  The development follows \<^verbatim>\<open>ssl_exporter.go\<close>. Go strings are byte strings
  (\<^typ>\<open>string\<close>), slices that the code only reads are lists, and the one array the code
  writes (the backing array of \<^verbatim>\<open>state.VerifiedChains\<close>) lives in an explicit memory.
\<close>

subsection \<open>time.Time\<close>

text \<open>
  A \<^verbatim>\<open>time.Time\<close> is an instant: the seconds since January 1 of year 1 (a signed
  64-bit count, so instants before year 1 exist) and the nanoseconds within the second.
  \<^verbatim>\<open>IsZero\<close>, \<^verbatim>\<open>Before\<close> and \<^verbatim>\<open>After\<close> are the methods of the
  standard library, which compare these two numbers.
\<close>

record Time =
  sec :: int
  nsec :: int

definition zeroTime :: Time where
  "zeroTime = \<lparr>sec = 0, nsec = 0\<rparr>"

definition IsZero :: "Time \<Rightarrow> bool" where
  "IsZero t \<longleftrightarrow> sec t = 0 \<and> nsec t = 0"

definition After :: "Time \<Rightarrow> Time \<Rightarrow> bool" where
  "After t u \<longleftrightarrow> sec t > sec u \<or> (sec t = sec u \<and> nsec t > nsec u)"

definition Before :: "Time \<Rightarrow> Time \<Rightarrow> bool" where
  "Before t u \<longleftrightarrow> sec t < sec u \<or> (sec t = sec u \<and> nsec t < nsec u)"

text \<open>
  \<^verbatim>\<open>UnixNano\<close> is computed in int64 and wraps around; the division
  \<^verbatim>\<open>UnixNano()/1e9\<close> is Go's integer division, which truncates towards zero. The
  quotient is below \<open>2^53\<close> in magnitude, so its conversion to float64 is exact and the
  sample value is kept as an integer.
\<close>

definition unixToInternal :: int where
  "unixToInternal = 62135596800"

definition UnixNano :: "Time \<Rightarrow> 64 word" where
  "UnixNano t = word_of_int ((sec t - unixToInternal) * 1000000000 + nsec t)"

definition unixSeconds :: "Time \<Rightarrow> int" where
  "unixSeconds t = sint (UnixNano t) sdiv 1000000000"

subsection \<open>x509.Certificate\<close>

type_synonym IP = "8 word list"

record pkix_Name =
  CommonName :: string
  OrganizationalUnit :: "string list"

record Certificate =
  SerialNumber :: int
  Issuer :: pkix_Name
  Subject :: pkix_Name
  NotBefore :: Time
  NotAfter :: Time
  DNSNames :: "string list"
  EmailAddresses :: "string list"
  IPAddresses :: "IP list"

text \<open>
  \<^verbatim>\<open>SerialNumber.String()\<close> of a \<^verbatim>\<open>*big.Int\<close> and \<^verbatim>\<open>strconv.Itoa\<close> both
  print an integer in decimal, with a minus sign when it is negative.
\<close>

function decimal :: "nat \<Rightarrow> string" where
  "decimal n = (if n < 10 then [char_of (48 + n)] else decimal (n div 10) @ [char_of (48 + n mod 10)])"
  by pat_completeness auto
termination
  by (relation "measure (\<lambda>n. n)") auto

declare decimal.simps [simp del]

definition Itoa :: "int \<Rightarrow> string" where
  "Itoa i = (if i < 0 then CHR ''-'' # decimal (nat (- i)) else decimal (nat i))"

definition big_String :: "int \<Rightarrow> string" where
  "big_String x = Itoa x"

subsection \<open>Deduplication: uniq and contains\<close>

fun contains :: "Certificate list \<Rightarrow> Certificate \<Rightarrow> bool" where
  "contains [] cert = False"
| "contains (c # certs) cert =
     (if big_String (SerialNumber c) = big_String (SerialNumber cert)
         \<and> CommonName (Issuer c) = CommonName (Issuer cert)
      then True else contains certs cert)"

text \<open>The loop of \<^verbatim>\<open>uniq\<close>, with the slice \<open>r\<close> built so far as accumulator.\<close>

fun uniq_loop :: "Certificate list \<Rightarrow> Certificate list \<Rightarrow> Certificate list" where
  "uniq_loop r [] = r"
| "uniq_loop r (c # certs) = uniq_loop (if \<not> contains r c then r @ [c] else r) certs"

definition uniq :: "Certificate list \<Rightarrow> Certificate list" where
  "uniq certs = uniq_loop [] certs"

text \<open>
  The specification's words, for comparison with the code: the Identity Key of a
  certificate, and the positions of a sequence that hold the first occurrence of a key.
\<close>

definition IdentityKey :: "Certificate \<Rightarrow> string \<times> string" where
  "IdentityKey c = (big_String (SerialNumber c), CommonName (Issuer c))"

definition first_occurrence :: "Certificate list \<Rightarrow> nat \<Rightarrow> bool" where
  "first_occurrence certs i \<longleftrightarrow>
     list_all (\<lambda>j. IdentityKey (certs ! j) \<noteq> IdentityKey (certs ! i)) [0..<i]"

definition Deduplicate :: "Certificate list \<Rightarrow> Certificate list" where
  "Deduplicate certs = map (\<lambda>i. certs ! i) (filter (first_occurrence certs) [0..<length certs])"

subsection \<open>Label strings\<close>

text \<open>\<^verbatim>\<open>strings.Join\<close>: the elements with the separator between neighbours.\<close>

fun Join :: "string list \<Rightarrow> string \<Rightarrow> string" where
  "Join [] sep = []"
| "Join [a] sep = a"
| "Join (a # b # bs) sep = a @ sep @ Join (b # bs) sep"

definition getDNSNames :: "Certificate \<Rightarrow> string" where
  "getDNSNames cert =
     (if length (DNSNames cert) > 0 then '','' @ Join (DNSNames cert) '','' @ '','' else [])"

definition getEmailAddresses :: "Certificate \<Rightarrow> string" where
  "getEmailAddresses cert =
     (if length (EmailAddresses cert) > 0 then '','' @ Join (EmailAddresses cert) '','' @ '',''
      else [])"

text \<open>
  \<^verbatim>\<open>getIPAddresses\<close> builds its string in a loop. \<^verbatim>\<open>net.IP.String\<close> belongs to
  the standard library and is a parameter, \<open>ip_String\<close>.
\<close>

fun ips_loop :: "(IP \<Rightarrow> string) \<Rightarrow> string \<Rightarrow> IP list \<Rightarrow> string" where
  "ips_loop ip_String ips [] = ips"
| "ips_loop ip_String ips (ip # rest) = ips_loop ip_String (ips @ ip_String ip @ '','') rest"

definition getIPAddresses :: "(IP \<Rightarrow> string) \<Rightarrow> Certificate \<Rightarrow> string" where
  "getIPAddresses ip_String cert =
     (if length (IPAddresses cert) > 0 then ips_loop ip_String '','' (IPAddresses cert) else [])"

definition getOrganizationalUnits :: "Certificate \<Rightarrow> string" where
  "getOrganizationalUnits cert =
     (if length (OrganizationalUnit (Subject cert)) > 0
      then '','' @ Join (OrganizationalUnit (Subject cert)) '','' @ '','' else [])"

subsection \<open>Metric descriptors and samples\<close>

text \<open>
  \<^verbatim>\<open>prometheus.BuildFQName\<close> joins the non-empty parts of a metric name with an
  underscore; \<^verbatim>\<open>prometheus.NewDesc\<close> records the name, the help string and the
  names of the variable labels (the constant labels are \<^verbatim>\<open>nil\<close> everywhere).
\<close>

definition BuildFQName :: "string \<Rightarrow> string \<Rightarrow> string \<Rightarrow> string" where
  "BuildFQName ns subsystem name =
     (if name = [] then []
      else if ns \<noteq> [] \<and> subsystem \<noteq> [] then Join [ns, subsystem, name] ''_''
      else if ns \<noteq> [] then Join [ns, name] ''_''
      else if subsystem \<noteq> [] then Join [subsystem, name] ''_''
      else name)"

record Desc =
  fqName :: string
  helpText :: string
  variableLabels :: "string list"

definition NewDesc :: "string \<Rightarrow> string \<Rightarrow> string list \<Rightarrow> Desc" where
  "NewDesc fq h labels = \<lparr>fqName = fq, helpText = h, variableLabels = labels\<rparr>"

definition namespace :: string where
  "namespace = ''ssl''"

definition tlsConnectSuccess :: Desc where
  "tlsConnectSuccess = NewDesc (BuildFQName namespace [] ''tls_connect_success'')
     ''If the TLS connection was a success'' []"

definition tlsVersion :: Desc where
  "tlsVersion = NewDesc (BuildFQName namespace [] ''tls_version_info'')
     ''The TLS version used'' [''version'']"

definition proberType :: Desc where
  "proberType = NewDesc (BuildFQName namespace [] ''prober'')
     ''The prober used by the exporter to connect to the target'' [''prober'']"

definition notBefore :: Desc where
  "notBefore = NewDesc (BuildFQName namespace [] ''cert_not_before'')
     ''NotBefore expressed as a Unix Epoch Time''
     [''serial_no'', ''issuer_cn'', ''cn'', ''dnsnames'', ''ips'', ''emails'', ''ou'']"

definition notAfter :: Desc where
  "notAfter = NewDesc (BuildFQName namespace [] ''cert_not_after'')
     ''NotAfter expressed as a Unix Epoch Time''
     [''serial_no'', ''issuer_cn'', ''cn'', ''dnsnames'', ''ips'', ''emails'', ''ou'']"

definition verifiedNotBefore :: Desc where
  "verifiedNotBefore = NewDesc (BuildFQName namespace [] ''verified_cert_not_before'')
     ''NotBefore expressed as a Unix Epoch Time for a certificate in the list of verified chains''
     [''chain_no'', ''serial_no'', ''issuer_cn'', ''cn'', ''dnsnames'', ''ips'', ''emails'', ''ou'']"

definition verifiedNotAfter :: Desc where
  "verifiedNotAfter = NewDesc (BuildFQName namespace [] ''verfied_cert_not_after'')
     ''NotAfter expressed as a Unix Epoch Time for a certificate in the list of verified chains''
     [''chain_no'', ''serial_no'', ''issuer_cn'', ''cn'', ''dnsnames'', ''ips'', ''emails'', ''ou'']"

definition Describe :: "Desc list" where
  "Describe = [tlsConnectSuccess, tlsVersion, proberType, notAfter, notBefore,
     verifiedNotAfter, verifiedNotBefore]"

text \<open>
  A sample is what \<^verbatim>\<open>prometheus.MustNewConstMetric\<close> is given: the descriptor, the
  gauge value and the label values. The library panics when the number of label values
  differs from the number of label names (lemma \<open>Exporter_Collect_label_arity\<close> below
  shows that no call of \<^verbatim>\<open>Collect\<close> does that) and when a label value is not valid
  UTF-8; label values are taken to be valid UTF-8 here.
\<close>

record Metric =
  desc :: Desc
  gauge :: int
  labelValues :: "string list"

definition MustNewConstMetric :: "Desc \<Rightarrow> int \<Rightarrow> string list \<Rightarrow> Metric" where
  "MustNewConstMetric d v lvs = \<lparr>desc = d, gauge = v, labelValues = lvs\<rparr>"

definition well_labelled :: "Metric \<Rightarrow> bool" where
  "well_labelled x \<longleftrightarrow> length (labelValues x) = length (variableLabels (desc x))"

subsection \<open>tls.ConnectionState and the memory of the verified chains\<close>

text \<open>
  A chain is a slice of certificates that the code only reads. The slice
  \<^verbatim>\<open>state.VerifiedChains\<close> is a pointer to its first element and a length; its
  elements live in a memory of chains, addressed by cell. The assignment
  \<^verbatim>\<open>verifiedChains := state.VerifiedChains\<close> copies the pointer and the length, not
  the elements.
\<close>

type_synonym chain = "Certificate list"

type_synonym memory = "nat \<Rightarrow> chain"

record slice =
  ptr :: nat
  slen :: nat

definition load :: "memory \<Rightarrow> slice \<Rightarrow> chain list" where
  "load m s = map m [ptr s ..< ptr s + slen s]"

definition store :: "memory \<Rightarrow> slice \<Rightarrow> chain list \<Rightarrow> memory" where
  "store m s ys = (\<lambda>a. if ptr s \<le> a \<and> a < ptr s + slen s then ys ! (a - ptr s) else m a)"

record ConnectionState =
  Version :: "16 word"
  PeerCertificates :: "Certificate list"
  VerifiedChains :: slice

definition getTLSVersion :: "ConnectionState \<Rightarrow> string" where
  "getTLSVersion state =
     (if Version state = 0x0301 then ''TLS 1.0''
      else if Version state = 0x0302 then ''TLS 1.1''
      else if Version state = 0x0303 then ''TLS 1.2''
      else if Version state = 0x0304 then ''TLS 1.3''
      else ''unknown'')"

subsection \<open>Ranking the verified chains\<close>

text \<open>
  The function handed to \<^verbatim>\<open>sort.Slice\<close> computes, for each of the two chains, the
  earliest non-zero \<^verbatim>\<open>NotAfter\<close> with the same loop, and compares the results.
\<close>

fun expiry_loop :: "Time \<Rightarrow> chain \<Rightarrow> Time" where
  "expiry_loop iExpiry [] = iExpiry"
| "expiry_loop iExpiry (cert # rest) =
     expiry_loop
       (if (IsZero iExpiry \<or> Before (NotAfter cert) iExpiry) \<and> \<not> IsZero (NotAfter cert)
        then NotAfter cert else iExpiry) rest"

definition expiry :: "chain \<Rightarrow> Time" where
  "expiry c = expiry_loop zeroTime c"

definition chain_less :: "chain \<Rightarrow> chain \<Rightarrow> bool" where
  "chain_less ci cj \<longleftrightarrow> After (expiry ci) (expiry cj)"

text \<open>
  \<^verbatim>\<open>sort.Slice\<close> belongs to Go's standard library. Its documentation promises that
  the slice is sorted by the given \<^verbatim>\<open>less\<close> function, and says that the sort is not
  guaranteed to be stable (equal elements may be reversed from their original order); the
  algorithm behind it has changed between Go releases. The model is that contract: the
  result \<open>ys\<close> is a rearrangement of \<open>xs\<close> in which no element is less than an earlier one.
\<close>

definition sort_Slice :: "('a \<Rightarrow> 'a \<Rightarrow> bool) \<Rightarrow> 'a list \<Rightarrow> 'a list \<Rightarrow> bool" where
  "sort_Slice lessFn xs ys \<longleftrightarrow> mset ys = mset xs \<and> sorted_wrt (\<lambda>a b. \<not> lessFn b a) ys"

definition RankChains :: "chain list \<Rightarrow> chain list \<Rightarrow> bool" where
  "RankChains vcs ranked \<longleftrightarrow> sort_Slice chain_less vcs ranked"

text \<open>
  The specification's words: the effective expiry of a chain is the minimum among the
  non-zero \<^verbatim>\<open>NotAfter\<close> timestamps of its certificates, and the zero timestamp when
  there is none.
\<close>

definition effective_expiry :: "chain \<Rightarrow> Time \<Rightarrow> bool" where
  "effective_expiry c t \<longleftrightarrow>
     (let nz = filter (\<lambda>u. \<not> IsZero u) (map NotAfter c)
      in if nz = [] then t = zeroTime else t \<in> set nz \<and> list_all (\<lambda>u. \<not> Before u t) nz)"

subsection \<open>Exporter.Collect\<close>

record Module =
  Prober :: string

type_synonym Duration = int

type_synonym ProbeFn = "string \<Rightarrow> Module \<Rightarrow> Duration \<Rightarrow> string + ConnectionState \<times> memory"

record Exporter =
  target :: string
  prober :: ProbeFn
  timeout :: Duration
  module :: Module

text \<open>The seven label values that every certificate sample carries, in the code's order.\<close>

definition cert_labels :: "(IP \<Rightarrow> string) \<Rightarrow> Certificate \<Rightarrow> string list" where
  "cert_labels ip_String cert =
     [big_String (SerialNumber cert), CommonName (Issuer cert), CommonName (Subject cert),
      getDNSNames cert, getIPAddresses ip_String cert, getEmailAddresses cert,
      getOrganizationalUnits cert]"

text \<open>The loop over the deduplicated peer certificates.\<close>

fun peer_loop :: "(IP \<Rightarrow> string) \<Rightarrow> Certificate list \<Rightarrow> Metric list" where
  "peer_loop ip_String [] = []"
| "peer_loop ip_String (cert # rest) =
     (if \<not> IsZero (NotAfter cert)
      then [MustNewConstMetric notAfter (unixSeconds (NotAfter cert)) (cert_labels ip_String cert)]
      else [])
     @ (if \<not> IsZero (NotBefore cert)
        then [MustNewConstMetric notBefore (unixSeconds (NotBefore cert))
                (cert_labels ip_String cert)]
        else [])
     @ peer_loop ip_String rest"

text \<open>The inner loop over one deduplicated verified chain, and the outer loop over the chains.\<close>

fun chain_loop :: "(IP \<Rightarrow> string) \<Rightarrow> int \<Rightarrow> Certificate list \<Rightarrow> Metric list" where
  "chain_loop ip_String i [] = []"
| "chain_loop ip_String i (cert # rest) =
     (if \<not> IsZero (NotAfter cert)
      then [MustNewConstMetric verifiedNotAfter (unixSeconds (NotAfter cert))
              (Itoa i # cert_labels ip_String cert)]
      else [])
     @ (if \<not> IsZero (NotBefore cert)
        then [MustNewConstMetric verifiedNotBefore (unixSeconds (NotBefore cert))
                (Itoa i # cert_labels ip_String cert)]
        else [])
     @ chain_loop ip_String i rest"

fun verified_loop :: "(IP \<Rightarrow> string) \<Rightarrow> int \<Rightarrow> chain list \<Rightarrow> Metric list" where
  "verified_loop ip_String i [] = []"
| "verified_loop ip_String i (c # rest) =
     chain_loop ip_String i (uniq c) @ verified_loop ip_String (i + 1) rest"

text \<open>
  \<^verbatim>\<open>Collect\<close> relates an exporter to the samples it sends on the channel, in order,
  and to the connection state and the memory it leaves behind (none when the probe
  failed). It is a relation because of \<^verbatim>\<open>sort.Slice\<close>: the third rule holds for every
  order of the chains that the sort may produce.
\<close>

inductive Exporter_Collect ::
  "(IP \<Rightarrow> string) \<Rightarrow> Exporter \<Rightarrow> Metric list \<Rightarrow> (ConnectionState \<times> memory) option \<Rightarrow> bool"
  for ip_String :: "IP \<Rightarrow> string" and e :: Exporter
where
  probe_failed:
    "prober e (target e) (module e) (timeout e) = Inl err \<Longrightarrow>
     Exporter_Collect ip_String e
       [MustNewConstMetric proberType 1 [Prober (module e)],
        MustNewConstMetric tlsConnectSuccess 0 []]
       None"
| no_certificates:
    "prober e (target e) (module e) (timeout e) = Inr (state, m) \<Longrightarrow>
     length (PeerCertificates state) < 1 \<Longrightarrow>
     Exporter_Collect ip_String e
       [MustNewConstMetric proberType 1 [Prober (module e)],
        MustNewConstMetric tlsVersion 1 [getTLSVersion state],
        MustNewConstMetric tlsConnectSuccess 0 []]
       (Some (state, m))"
| certificates:
    "prober e (target e) (module e) (timeout e) = Inr (state, m) \<Longrightarrow>
     \<not> length (PeerCertificates state) < 1 \<Longrightarrow>
     RankChains (load m (VerifiedChains state)) verifiedChains \<Longrightarrow>
     Exporter_Collect ip_String e
       ([MustNewConstMetric proberType 1 [Prober (module e)],
         MustNewConstMetric tlsVersion 1 [getTLSVersion state],
         MustNewConstMetric tlsConnectSuccess 1 []]
        @ peer_loop ip_String (uniq (PeerCertificates state))
        @ verified_loop ip_String 0 verifiedChains)
       (Some (state, store m (VerifiedChains state) verifiedChains))"

subsection \<open>probeHandler\<close>

text \<open>
  The handler reads the query and the header of the request, the modules of the
  configuration and the registry \<^verbatim>\<open>prober.Probers\<close>. \<^verbatim>\<open>url.Values.Get\<close> and
  \<^verbatim>\<open>http.Header.Get\<close> return the first value stored under a key, or the empty
  string.
\<close>

record Config =
  Modules :: "string \<rightharpoonup> Module"

record Request =
  Query :: "string \<rightharpoonup> string list"
  Header :: "string \<rightharpoonup> string list"

definition Get :: "(string \<rightharpoonup> string list) \<Rightarrow> string \<Rightarrow> string" where
  "Get v key = (case v key of None \<Rightarrow> [] | Some vs \<Rightarrow> (case vs of [] \<Rightarrow> [] | x # _ \<Rightarrow> x))"

text \<open>
  The timeout is computed in float64. The operations the handler uses are parameters:
  \<^verbatim>\<open>strconv.ParseFloat\<close> (an error text or a number), the constants 10 and 1e9, the
  comparison with 0, the multiplication and the conversion \<^verbatim>\<open>time.Duration(x)\<close>
  to int64 nanoseconds.
\<close>

record 'f float64 =
  ParseFloat :: "string \<Rightarrow> string + 'f"
  ten :: 'f
  billion :: 'f
  is_zero :: "'f \<Rightarrow> bool"
  fmul :: "'f \<Rightarrow> 'f \<Rightarrow> 'f"
  to_Duration :: "'f \<Rightarrow> Duration"


text \<open>
  The response is either \<^verbatim>\<open>http.Error(w, message, code)\<close>, with the message kept as
  the format string and the operands given to \<^verbatim>\<open>fmt.Sprintf\<close>, or the response of
  the metrics handler for a fresh registry holding the exporter, which is what calls
  \<^verbatim>\<open>Collect\<close>.
\<close>

datatype message = Plain string | Sprintf string "string list"

datatype Response = Error message nat | Serve Exporter

definition StatusBadRequest :: nat where
  "StatusBadRequest = 400"

definition StatusInternalServerError :: nat where
  "StatusInternalServerError = 500"

definition probeHandler ::
  "'f float64 \<Rightarrow> (string \<rightharpoonup> ProbeFn) \<Rightarrow> Request \<Rightarrow> Config \<Rightarrow> Response" where
  "probeHandler fl Probers r conf =
     (let moduleName = Get (Query r) ''module'';
          moduleName = (if moduleName = [] then ''tcp'' else moduleName)
      in case Modules conf moduleName of
           None \<Rightarrow> Error (Sprintf ''Unknown module %q'' [moduleName]) StatusBadRequest
         | Some mo \<Rightarrow>
            (case (let v = Get (Header r) ''X-Prometheus-Scrape-Timeout-Seconds''
                   in if v \<noteq> [] then ParseFloat fl v else Inr (ten fl)) of
               Inl err \<Rightarrow>
                 Error (Sprintf ''Failed to parse timeout from Prometheus header: %s'' [err])
                   StatusInternalServerError
             | Inr timeoutSeconds \<Rightarrow>
                (let timeoutSeconds =
                       (if is_zero fl timeoutSeconds then ten fl else timeoutSeconds);
                     timeout = to_Duration fl (fmul fl timeoutSeconds (billion fl));
                     target = Get (Query r) ''target''
                 in if target = [] then
                      Error (Plain ''Target parameter is missing'') StatusBadRequest
                    else
                      (case Probers (Prober mo) of
                         None \<Rightarrow>
                           Error (Sprintf ''Unknown prober %q'' [Prober mo]) StatusBadRequest
                       | Some p \<Rightarrow>
                           Serve \<lparr>target = target, prober = p, timeout = timeout,
                                  module = mo\<rparr>))))"

text \<open>
  The request errors the specification lists: an unknown module, a timeout header that
  does not parse, a missing target, an unknown prober.
\<close>

definition requested_module :: "Request \<Rightarrow> string" where
  "requested_module r =
     (if Get (Query r) ''module'' = [] then ''tcp'' else Get (Query r) ''module'')"

definition unknown_module :: "Request \<Rightarrow> Config \<Rightarrow> bool" where
  "unknown_module r conf \<longleftrightarrow> Modules conf (requested_module r) = None"

definition malformed_timeout :: "'f float64 \<Rightarrow> Request \<Rightarrow> bool" where
  "malformed_timeout fl r \<longleftrightarrow>
     Get (Header r) ''X-Prometheus-Scrape-Timeout-Seconds'' \<noteq> []
     \<and> isl (ParseFloat fl (Get (Header r) ''X-Prometheus-Scrape-Timeout-Seconds''))"

definition missing_target :: "Request \<Rightarrow> bool" where
  "missing_target r \<longleftrightarrow> Get (Query r) ''target'' = []"

definition unknown_prober :: "(string \<rightharpoonup> ProbeFn) \<Rightarrow> Request \<Rightarrow> Config \<Rightarrow> bool" where
  "unknown_prober Probers r conf \<longleftrightarrow>
     (case Modules conf (requested_module r) of
        None \<Rightarrow> False
      | Some mo \<Rightarrow> Probers (Prober mo) = None)"

definition request_error ::
  "'f float64 \<Rightarrow> (string \<rightharpoonup> ProbeFn) \<Rightarrow> Request \<Rightarrow> Config \<Rightarrow> bool" where
  "request_error fl Probers r conf \<longleftrightarrow>
     unknown_module r conf \<or> malformed_timeout fl r \<or> missing_target r
     \<or> unknown_prober Probers r conf"

subsection \<open>Concrete inputs\<close>

text \<open>
  The inputs at which the theorems below are instantiated. \<open>dotted\<close> prints an address
  as \<^verbatim>\<open>net.IP.String\<close> prints a four-byte address; \<open>Unix\<close> is
  \<^verbatim>\<open>time.Unix\<close> for a nanosecond count below one second.
\<close>

definition dotted :: "IP \<Rightarrow> string" where
  "dotted ip = Join (map (\<lambda>b. decimal (unat b)) ip) ''.''"

definition Unix :: "int \<Rightarrow> int \<Rightarrow> Time" where
  "Unix s n = \<lparr>sec = s + unixToInternal, nsec = n\<rparr>"

definition ex_cert :: "int \<Rightarrow> string \<Rightarrow> string \<Rightarrow> Time \<Rightarrow> Time \<Rightarrow> Certificate" where
  "ex_cert serial issuer subject nb na =
     \<lparr>SerialNumber = serial,
      Issuer = \<lparr>CommonName = issuer, OrganizationalUnit = []\<rparr>,
      Subject = \<lparr>CommonName = subject, OrganizationalUnit = [''ops'']\<rparr>,
      NotBefore = nb, NotAfter = na,
      DNSNames = [''a.com'', ''b.com''], EmailAddresses = [], IPAddresses = [[192, 0, 2, 1]]\<rparr>"

text \<open>
  A leaf valid from 2023-01-01 to 2024-01-01, two roots valid until 2030-01-01, a
  certificate that expired one second before the zero time, and one with no dates.
\<close>

definition ex_leaf :: Certificate where
  "ex_leaf = ex_cert 7 ''Example CA'' ''a.com'' (Unix 1672531200 0) (Unix 1704067200 500)"

definition ex_rootA :: Certificate where
  "ex_rootA = ex_cert 10 ''Root A'' ''Example CA'' (Unix 1577836800 0) (Unix 1893456000 0)"

definition ex_rootB :: Certificate where
  "ex_rootB = ex_cert 20 ''Root B'' ''Example CA'' (Unix 1577836800 0) (Unix 1893456000 0)"

definition ex_year0 :: Certificate where
  "ex_year0 = ex_cert 30 ''Old CA'' ''old.example'' zeroTime \<lparr>sec = - 1, nsec = 0\<rparr>"

definition ex_undated :: Certificate where
  "ex_undated = ex_cert 40 ''Example CA'' ''undated.example'' zeroTime zeroTime"

definition ex_chainA :: chain where
  "ex_chainA = [ex_leaf, ex_rootA]"

definition ex_chainB :: chain where
  "ex_chainB = [ex_leaf, ex_rootB]"

text \<open>
  Thirteen chains: twelve single-certificate chains that expire at the same instant, and
  one that expires later. \<^verbatim>\<open>sort.Slice\<close> leaves its insertion sort for a quicksort
  once a slice has more than twelve elements. \<open>ex_thirteen_ranked\<close> is one order of the
  thirteen that is sorted by expiry.
\<close>

definition ex_tied :: "int \<Rightarrow> chain" where
  "ex_tied k = [ex_cert k ''Example CA'' ''a.com'' (Unix 1672531200 0) (Unix 1704067200 0)]"

definition ex_thirteen :: "chain list" where
  "ex_thirteen = map ex_tied [0, 1, 2, 3, 4, 5, 6, 7, 8, 9, 10, 11] @ [[ex_rootA]]"

definition ex_thirteen_ranked :: "chain list" where
  "ex_thirteen_ranked = [ex_rootA] # map ex_tied [6, 2, 3, 4, 5, 0, 7, 8, 9, 10, 11, 1]"

definition ex_memory :: "chain list \<Rightarrow> memory" where
  "ex_memory cs = (\<lambda>a. if a < length cs then cs ! a else [])"

definition ex_slice :: "chain list \<Rightarrow> slice" where
  "ex_slice cs = \<lparr>ptr = 0, slen = length cs\<rparr>"

definition ex_state :: "Certificate list \<Rightarrow> chain list \<Rightarrow> ConnectionState" where
  "ex_state peers cs =
     \<lparr>Version = 0x0303, PeerCertificates = peers, VerifiedChains = ex_slice cs\<rparr>"

definition ex_exporter :: "Certificate list \<Rightarrow> chain list \<Rightarrow> Exporter" where
  "ex_exporter peers cs =
     \<lparr>target = ''example.com:443'',
      prober = (\<lambda>t mo d. Inr (ex_state peers cs, ex_memory cs)),
      timeout = 10000000000,
      module = \<lparr>Prober = ''tcp''\<rparr>\<rparr>"

definition ex_failing_exporter :: Exporter where
  "ex_failing_exporter =
     \<lparr>target = ''example.com:443'',
      prober = (\<lambda>t mo d. Inl ''dial tcp: i/o timeout''),
      timeout = 10000000000,
      module = \<lparr>Prober = ''tcp''\<rparr>\<rparr>"

text \<open>
  A float64 environment for three header values: \<^verbatim>\<open>-2\<close> and \<^verbatim>\<open>0\<close> parse to those
  numbers and \<^verbatim>\<open>abc\<close> does not parse. On these integers float64 arithmetic is exact.
\<close>

definition ex_float64 :: "int float64" where
  "ex_float64 =
     \<lparr>ParseFloat = (\<lambda>v. if v = ''-2'' then Inr (- 2) else if v = ''0'' then Inr 0
                         else Inl ''invalid syntax''),
      ten = 10, billion = 1000000000, is_zero = (\<lambda>x. x = 0), fmul = (\<lambda>x y. x * y),
      to_Duration = (\<lambda>x. x)\<rparr>"


definition ex_conf :: Config where
  "ex_conf = \<lparr>Modules = [''tcp'' \<mapsto> \<lparr>Prober = ''tcp''\<rparr>]\<rparr>"

definition ex_Probers :: "string \<rightharpoonup> ProbeFn" where
  "ex_Probers = [''tcp'' \<mapsto> (\<lambda>t mo d. Inl ''dial tcp: i/o timeout'')]"

definition ex_request :: "string \<Rightarrow> Request" where
  "ex_request v =
     \<lparr>Query = [''target'' \<mapsto> [''example.com:443'']],
      Header = [''X-Prometheus-Scrape-Timeout-Seconds'' \<mapsto> [v]]\<rparr>"

section \<open>Deduplication\<close>

text \<open>\<^verbatim>\<open>contains\<close> looks for a certificate with the same Identity Key.\<close>

lemma contains_key: "contains r c \<longleftrightarrow> IdentityKey c \<in> IdentityKey ` set r"
  by (induction r) (auto simp: IdentityKey_def)

lemma uniq_loop_snoc:
  "uniq_loop r (xs @ [x]) =
     (if \<not> contains (uniq_loop r xs) x then uniq_loop r xs @ [x] else uniq_loop r xs)"
  by (induction xs arbitrary: r) simp_all

lemma keys_uniq_loop:
  "IdentityKey ` set (uniq_loop r xs) = IdentityKey ` set r \<union> IdentityKey ` set xs"
proof (induction xs arbitrary: r)
  case Nil
  show ?case by simp
next
  case (Cons x xs)
  show ?case
  proof (cases "contains r x")
    case True
    then have "IdentityKey x \<in> IdentityKey ` set r" by (simp add: contains_key)
    with True Cons [of r] show ?thesis by auto
  next
    case False
    with Cons [of "r @ [x]"] show ?thesis by auto
  qed
qed

lemma keys_uniq: "IdentityKey ` set (uniq certs) = IdentityKey ` set certs"
  using keys_uniq_loop [of "[]" certs] by (simp add: uniq_def)

text \<open>One more certificate at the end is appended exactly when its key is new.\<close>

lemma uniq_snoc:
  "uniq (xs @ [x]) = uniq xs @ (if IdentityKey x \<in> IdentityKey ` set xs then [] else [x])"
proof -
  have "contains (uniq_loop [] xs) x \<longleftrightarrow> IdentityKey x \<in> IdentityKey ` set xs"
    using keys_uniq_loop [of "[]" xs] by (simp add: contains_key)
  then show ?thesis
    by (simp add: uniq_def uniq_loop_snoc)
qed

lemma first_occurrence_snoc_old:
  "i < length xs \<Longrightarrow> first_occurrence (xs @ [x]) i = first_occurrence xs i"
  by (simp add: first_occurrence_def list_all_iff nth_append)

lemma first_occurrence_snoc_new:
  "first_occurrence (xs @ [x]) (length xs) \<longleftrightarrow> IdentityKey x \<notin> IdentityKey ` set xs"
proof -
  have "first_occurrence (xs @ [x]) (length xs)
      \<longleftrightarrow> (\<forall>j<length xs. IdentityKey (xs ! j) \<noteq> IdentityKey x)"
    by (auto simp: first_occurrence_def list_all_iff nth_append)
  also have "\<dots> \<longleftrightarrow> IdentityKey x \<notin> IdentityKey ` set xs"
    by (metis (no_types, lifting) image_iff in_set_conv_nth)
  finally show ?thesis .
qed

lemma Deduplicate_snoc:
  "Deduplicate (xs @ [x]) =
     Deduplicate xs @ (if IdentityKey x \<in> IdentityKey ` set xs then [] else [x])"
proof -
  have f: "filter (first_occurrence (xs @ [x])) [0..<length xs]
         = filter (first_occurrence xs) [0..<length xs]"
    by (rule filter_cong) (simp_all add: first_occurrence_snoc_old)
  have m: "map (\<lambda>i. (xs @ [x]) ! i) (filter (first_occurrence xs) [0..<length xs])
         = map (\<lambda>i. xs ! i) (filter (first_occurrence xs) [0..<length xs])"
    by (rule map_cong) (simp_all add: nth_append)
  show ?thesis
    by (simp add: Deduplicate_def f m first_occurrence_snoc_new)
qed

lemma uniq_eq_Deduplicate: "uniq certs = Deduplicate certs"
proof (induction certs rule: rev_induct)
  case Nil
  show ?case by (simp add: uniq_def Deduplicate_def)
next
  case (snoc x xs)
  then show ?case by (simp only: uniq_snoc Deduplicate_snoc)
qed

lemma distinct_keys_uniq: "distinct (map IdentityKey (uniq certs))"
proof (induction certs rule: rev_induct)
  case Nil
  show ?case by (simp add: uniq_def)
next
  case (snoc x xs)
  then show ?case by (auto simp: uniq_snoc keys_uniq)
qed

lemma uniq_distinct_keys: "distinct (map IdentityKey certs) \<Longrightarrow> uniq certs = certs"
proof (induction certs rule: rev_induct)
  case Nil
  show ?case by (simp add: uniq_def)
next
  case (snoc x xs)
  then show ?case by (auto simp: uniq_snoc)
qed

lemma subseq_uniq: "subseq (uniq certs) certs"
proof (induction certs rule: rev_induct)
  case Nil
  show ?case by (simp add: uniq_def)
next
  case (snoc x xs)
  then show ?case by (auto simp: uniq_snoc intro: subseq_order.order_trans)
qed

text \<open>
  Claim C6. \<^verbatim>\<open>uniq\<close> keeps exactly the certificates at the positions that hold the
  first occurrence of their Identity Key (the serial number in decimal paired with the
  issuer's common name), in input order: the result is a subsequence of the input, no key
  occurs twice in it, no key of the input is lost, and \<^verbatim>\<open>contains\<close> reports a
  duplicate exactly when the Identity Keys are equal.
\<close>

theorem uniq_keeps_first_occurrences:
  "uniq certs = Deduplicate certs
   \<and> subseq (uniq certs) certs
   \<and> distinct (map IdentityKey (uniq certs))
   \<and> IdentityKey ` set (uniq certs) = IdentityKey ` set certs
   \<and> (contains r c \<longleftrightarrow> (\<exists>d \<in> set r. IdentityKey d = IdentityKey c))"
proof -
  have "contains r c \<longleftrightarrow> (\<exists>d \<in> set r. IdentityKey d = IdentityKey c)"
    by (induction r) (auto simp: IdentityKey_def)
  with uniq_eq_Deduplicate subseq_uniq distinct_keys_uniq keys_uniq show ?thesis
    by blast
qed

text \<open>
  Claim C7. Deduplication is idempotent: a second pass of \<^verbatim>\<open>uniq\<close> finds every key
  once and drops nothing.
\<close>

theorem uniq_idempotent: "uniq (uniq x) = uniq x"
  by (rule uniq_distinct_keys) (rule distinct_keys_uniq)

section \<open>Label strings\<close>

lemma ips_loop_concat:
  "ips_loop ip_String ips xs = ips @ concat (map (\<lambda>ip. ip_String ip @ '','') xs)"
  by (induction xs arbitrary: ips) simp_all

lemma Join_comma: "xs \<noteq> [] \<Longrightarrow> Join xs '','' @ '','' = concat (map (\<lambda>x. x @ '','') xs)"
  by (induction xs "'',''" rule: Join.induct) simp_all

lemma getIPAddresses_Join:
  "getIPAddresses ip_String cert =
     (if IPAddresses cert = [] then []
      else '','' @ Join (map ip_String (IPAddresses cert)) '','' @ '','')"
proof (cases "IPAddresses cert = []")
  case True
  then show ?thesis by (simp add: getIPAddresses_def)
next
  case False
  then have "Join (map ip_String (IPAddresses cert)) '','' @ '',''
           = concat (map (\<lambda>ip. ip_String ip @ '','') (IPAddresses cert))"
    by (simp add: Join_comma comp_def)
  with False show ?thesis
    by (simp add: getIPAddresses_def ips_loop_concat)
qed

text \<open>
  Claim C8. Each of the four name labels is empty for an empty sequence and otherwise the
  names joined by a comma, with a comma in front and a comma behind; the IP addresses are
  printed by \<^verbatim>\<open>ip.String()\<close> first. DNS names a.com and b.com give
  \<^verbatim>\<open>,a.com,b.com,\<close>.
\<close>

theorem name_labels_delimited:
  "getDNSNames cert =
     (if DNSNames cert = [] then [] else '','' @ Join (DNSNames cert) '','' @ '','')
   \<and> getIPAddresses ip_String cert =
     (if IPAddresses cert = [] then []
      else '','' @ Join (map ip_String (IPAddresses cert)) '','' @ '','')
   \<and> getEmailAddresses cert =
     (if EmailAddresses cert = [] then [] else '','' @ Join (EmailAddresses cert) '','' @ '','')
   \<and> getOrganizationalUnits cert =
     (if OrganizationalUnit (Subject cert) = [] then []
      else '','' @ Join (OrganizationalUnit (Subject cert)) '','' @ '','')
   \<and> getDNSNames (cert\<lparr>DNSNames := [''a.com'', ''b.com'']\<rparr>) = '',a.com,b.com,''"
proof -
  have dns: "getDNSNames cert =
     (if DNSNames cert = [] then [] else '','' @ Join (DNSNames cert) '','' @ '','')"
    by (simp add: getDNSNames_def)
  have emails: "getEmailAddresses cert =
     (if EmailAddresses cert = [] then [] else '','' @ Join (EmailAddresses cert) '','' @ '','')"
    by (simp add: getEmailAddresses_def)
  have ou: "getOrganizationalUnits cert =
     (if OrganizationalUnit (Subject cert) = [] then []
      else '','' @ Join (OrganizationalUnit (Subject cert)) '','' @ '','')"
    by (simp add: getOrganizationalUnits_def)
  have ex: "getDNSNames (cert\<lparr>DNSNames := [''a.com'', ''b.com'']\<rparr>) = '',a.com,b.com,''"
    by (simp add: getDNSNames_def)
  from dns emails ou ex getIPAddresses_Join [of ip_String cert] show ?thesis
    by (intro conjI)
qed

section \<open>Instants and the effective expiry\<close>

lemma Time_eq_iff: "(t :: Time) = u \<longleftrightarrow> sec t = sec u \<and> nsec t = nsec u"
  by (cases t, cases u) simp

lemma After_Before: "After t u \<longleftrightarrow> Before u t"
  by (auto simp: After_def Before_def)

lemma Before_irrefl: "\<not> Before t t"
  by (simp add: Before_def)

lemma Before_antisym: "\<not> Before t u \<Longrightarrow> \<not> Before u t \<Longrightarrow> t = u"
  by (auto simp: Before_def Time_eq_iff)

text \<open>
  The loop of the comparison function. While no non-zero \<^verbatim>\<open>NotAfter\<close> has been seen
  the accumulator stays as it is; from a non-zero accumulator on, the loop keeps the
  earliest instant seen.
\<close>

lemma expiry_loop_no_nonzero:
  "filter (\<lambda>u. \<not> IsZero u) (map NotAfter c) = [] \<Longrightarrow> expiry_loop acc c = acc"
  by (induction c arbitrary: acc) (auto split: if_splits)

lemma expiry_loop_nonzero_acc:
  "\<not> IsZero acc \<Longrightarrow>
     (expiry_loop acc c = acc
        \<or> expiry_loop acc c \<in> set (filter (\<lambda>u. \<not> IsZero u) (map NotAfter c)))
     \<and> \<not> Before acc (expiry_loop acc c)
     \<and> list_all (\<lambda>u. \<not> Before u (expiry_loop acc c))
          (filter (\<lambda>u. \<not> IsZero u) (map NotAfter c))"
proof (induction c arbitrary: acc)
  case Nil
  show ?case by (simp add: Before_irrefl)
next
  case (Cons cert rest)
  let ?t = "NotAfter cert"
  show ?case
  proof (cases "Before ?t acc \<and> \<not> IsZero ?t")
    case True
    then have step: "expiry_loop acc (cert # rest) = expiry_loop ?t rest" by simp
    from True Cons.IH [of ?t] have ih:
      "expiry_loop ?t rest = ?t
         \<or> expiry_loop ?t rest \<in> set (filter (\<lambda>u. \<not> IsZero u) (map NotAfter rest))"
      "\<not> Before ?t (expiry_loop ?t rest)"
      "list_all (\<lambda>u. \<not> Before u (expiry_loop ?t rest))
         (filter (\<lambda>u. \<not> IsZero u) (map NotAfter rest))"
      by simp_all
    from ih(2) True have "\<not> Before acc (expiry_loop ?t rest)"
      by (auto simp: Before_def)
    with ih True show ?thesis unfolding step by auto
  next
    case False
    with Cons.prems have step: "expiry_loop acc (cert # rest) = expiry_loop acc rest" by auto
    from Cons.prems Cons.IH [of acc] have ih:
      "expiry_loop acc rest = acc
         \<or> expiry_loop acc rest \<in> set (filter (\<lambda>u. \<not> IsZero u) (map NotAfter rest))"
      "\<not> Before acc (expiry_loop acc rest)"
      "list_all (\<lambda>u. \<not> Before u (expiry_loop acc rest))
         (filter (\<lambda>u. \<not> IsZero u) (map NotAfter rest))"
      by simp_all
    from False ih(2) have "\<not> IsZero ?t \<Longrightarrow> \<not> Before ?t (expiry_loop acc rest)"
      by (auto simp: Before_def)
    with ih show ?thesis unfolding step by auto
  qed
qed

lemma expiry_loop_zero_acc:
  "IsZero acc \<Longrightarrow> filter (\<lambda>u. \<not> IsZero u) (map NotAfter c) \<noteq> [] \<Longrightarrow>
     expiry_loop acc c \<in> set (filter (\<lambda>u. \<not> IsZero u) (map NotAfter c))
     \<and> list_all (\<lambda>u. \<not> Before u (expiry_loop acc c))
          (filter (\<lambda>u. \<not> IsZero u) (map NotAfter c))"
proof (induction c arbitrary: acc)
  case Nil
  then show ?case by simp
next
  case (Cons cert rest)
  let ?t = "NotAfter cert"
  show ?case
  proof (cases "IsZero ?t")
    case True
    with Cons.prems have "expiry_loop acc (cert # rest) = expiry_loop acc rest" by simp
    with True Cons.prems Cons.IH [of acc] show ?thesis by simp
  next
    case False
    with Cons.prems have step: "expiry_loop acc (cert # rest) = expiry_loop ?t rest" by simp
    from False expiry_loop_nonzero_acc [of ?t rest] show ?thesis unfolding step by auto
  qed
qed

text \<open>The loop computes the effective expiry of the specification, and nothing else is one.\<close>

lemma effective_expiry_expiry: "effective_expiry c (expiry c)"
proof (cases "filter (\<lambda>u. \<not> IsZero u) (map NotAfter c) = []")
  case True
  then show ?thesis
    by (simp add: effective_expiry_def expiry_def expiry_loop_no_nonzero)
next
  case False
  have "IsZero zeroTime" by (simp add: IsZero_def zeroTime_def)
  from expiry_loop_zero_acc [OF this False] False show ?thesis
    by (simp add: effective_expiry_def expiry_def)
qed

lemma effective_expiry_unique:
  assumes "effective_expiry c t" and "effective_expiry c u"
  shows "t = u"
proof (cases "filter (\<lambda>u. \<not> IsZero u) (map NotAfter c) = []")
  case True
  with assms show ?thesis by (simp add: effective_expiry_def)
next
  case False
  with assms have "\<not> Before t u" "\<not> Before u t"
    by (auto simp: effective_expiry_def Let_def list_all_iff)
  then show ?thesis by (simp add: Before_antisym)
qed

lemma effective_expiry_iff: "effective_expiry c t \<longleftrightarrow> t = expiry c"
  using effective_expiry_expiry effective_expiry_unique by blast

lemma expiry_undated: "list_all (\<lambda>c. IsZero (NotAfter c)) ch \<Longrightarrow> expiry ch = zeroTime"
proof -
  assume "list_all (\<lambda>c. IsZero (NotAfter c)) ch"
  then have "filter (\<lambda>u. \<not> IsZero u) (map NotAfter ch) = []"
    by (induction ch) simp_all
  then show ?thesis by (simp add: expiry_def expiry_loop_no_nonzero)
qed

section \<open>Ranking\<close>

lemma RankChains_length: "RankChains xs ys \<Longrightarrow> length ys = length xs"
  by (auto simp: RankChains_def sort_Slice_def dest: mset_eq_length)

lemma RankChains_later_first:
  assumes "RankChains xs ys" "i < length ys" "j < length ys"
    "After (expiry (ys ! i)) (expiry (ys ! j))"
  shows "i < j"
proof (rule ccontr)
  assume "\<not> i < j"
  then consider "i = j" | "j < i" by linarith
  then show False
  proof cases
    case 1
    with assms(4) show False by (simp add: After_def)
  next
    case 2
    from assms(1) have "sorted_wrt (\<lambda>a b. \<not> chain_less b a) ys"
      by (simp add: RankChains_def sort_Slice_def)
    with 2 assms(2) have "\<not> chain_less (ys ! i) (ys ! j)"
      by (simp add: sorted_wrt_iff_nth_less)
    with assms(4) show False by (simp add: chain_less_def)
  qed
qed

lemma RankChains_ties_adjacent:
  assumes "RankChains xs ys" "i < k" "k < j" "j < length ys"
    "expiry (ys ! i) = expiry (ys ! j)"
  shows "expiry (ys ! k) = expiry (ys ! i)"
proof -
  from assms(1) have s: "sorted_wrt (\<lambda>a b. \<not> chain_less b a) ys"
    by (simp add: RankChains_def sort_Slice_def)
  from s assms have "\<not> chain_less (ys ! k) (ys ! i)"
    by (simp add: sorted_wrt_iff_nth_less)
  moreover from s assms have "\<not> chain_less (ys ! j) (ys ! k)"
    by (simp add: sorted_wrt_iff_nth_less)
  ultimately show ?thesis using assms(5)
    by (simp add: chain_less_def After_Before Before_antisym)
qed

text \<open>
  Every slice has a ranking: the contract of \<^verbatim>\<open>sort.Slice\<close> can be met, so
  \<^verbatim>\<open>Collect\<close> has an outcome for every exporter (lemma \<open>Exporter_Collect_exists\<close>).
\<close>

lemma chain_less_key:
  "chain_less a b \<longleftrightarrow> (sec (expiry b), nsec (expiry b)) < (sec (expiry a), nsec (expiry a))"
  by (auto simp: chain_less_def After_def less_prod_def)

lemma RankChains_exists: "\<exists>ranked. RankChains vcs ranked"
proof -
  let ?key = "\<lambda>c. (sec (expiry c), nsec (expiry c))"
  let ?ys = "rev (sort_key ?key vcs)"
  have "sorted (map ?key (sort_key ?key vcs))" by (rule sorted_sort_key)
  then have "sorted_wrt (\<lambda>a b. ?key a \<le> ?key b) (sort_key ?key vcs)"
    by (simp add: sorted_map)
  then have "sorted_wrt (\<lambda>a b. \<not> chain_less a b) (sort_key ?key vcs)"
    by (rule sorted_wrt_mono_rel [rotated]) (auto simp: chain_less_key)
  then have "sorted_wrt (\<lambda>a b. \<not> chain_less b a) ?ys"
    by (simp add: sorted_wrt_rev)
  moreover have "mset ?ys = mset vcs" by simp
  ultimately have "RankChains vcs ?ys"
    by (simp add: RankChains_def sort_Slice_def)
  then show ?thesis ..
qed

section \<open>The memory of the verified chains\<close>

lemma length_load: "length (load m s) = slen s"
  by (simp add: load_def)

lemma load_store: "length ys = slen s \<Longrightarrow> load (store m s ys) s = ys"
  by (rule nth_equalityI) (simp_all add: load_def store_def)

lemma store_frame: "a < ptr s \<or> ptr s + slen s \<le> a \<Longrightarrow> store m s ys a = m a"
  by (auto simp: store_def)

section \<open>Collect\<close>

lemma Exporter_Collect_exists: "\<exists>ms out. Exporter_Collect ip_String e ms out"
proof (cases "prober e (target e) (module e) (timeout e)")
  case (Inl err)
  then show ?thesis by (blast intro: Exporter_Collect.probe_failed)
next
  case (Inr sm)
  obtain state m where sm: "sm = (state, m)" by (cases sm)
  show ?thesis
  proof (cases "length (PeerCertificates state) < 1")
    case True
    with Inr sm show ?thesis by (blast intro: Exporter_Collect.no_certificates)
  next
    case False
    obtain ranked where "RankChains (load m (VerifiedChains state)) ranked"
      using RankChains_exists by blast
    with Inr sm False show ?thesis by (blast intro: Exporter_Collect.certificates)
  qed
qed

lemma Exporter_Collect_probe_failed:
  assumes "prober e (target e) (module e) (timeout e) = Inl err"
  shows "Exporter_Collect ip_String e ms out \<longleftrightarrow>
     ms = [MustNewConstMetric proberType 1 [Prober (module e)],
           MustNewConstMetric tlsConnectSuccess 0 []] \<and> out = None"
  using assms by (auto simp: Exporter_Collect.simps)

lemma Exporter_Collect_no_certificates:
  assumes "prober e (target e) (module e) (timeout e) = Inr (state, m)"
    and "length (PeerCertificates state) < 1"
  shows "Exporter_Collect ip_String e ms out \<longleftrightarrow>
     ms = [MustNewConstMetric proberType 1 [Prober (module e)],
           MustNewConstMetric tlsVersion 1 [getTLSVersion state],
           MustNewConstMetric tlsConnectSuccess 0 []] \<and> out = Some (state, m)"
  using assms by (auto simp: Exporter_Collect.simps)

lemma Exporter_Collect_certificates:
  assumes "prober e (target e) (module e) (timeout e) = Inr (state, m)"
    and "\<not> length (PeerCertificates state) < 1"
  shows "Exporter_Collect ip_String e ms out \<longleftrightarrow>
     (\<exists>ranked. RankChains (load m (VerifiedChains state)) ranked
        \<and> ms = [MustNewConstMetric proberType 1 [Prober (module e)],
                MustNewConstMetric tlsVersion 1 [getTLSVersion state],
                MustNewConstMetric tlsConnectSuccess 1 []]
               @ peer_loop ip_String (uniq (PeerCertificates state))
               @ verified_loop ip_String 0 ranked
        \<and> out = Some (state, store m (VerifiedChains state) ranked))"
  using assms by (auto simp: Exporter_Collect.simps)

text \<open>Every sample has as many label values as its descriptor has label names.\<close>

lemma peer_loop_arity: "list_all well_labelled (peer_loop ip_String certs)"
  by (induction certs)
     (simp_all add: well_labelled_def MustNewConstMetric_def cert_labels_def notAfter_def
        notBefore_def NewDesc_def)

lemma chain_loop_arity: "list_all well_labelled (chain_loop ip_String i certs)"
  by (induction certs)
     (simp_all add: well_labelled_def MustNewConstMetric_def cert_labels_def
        verifiedNotAfter_def verifiedNotBefore_def NewDesc_def)

lemma verified_loop_arity: "list_all well_labelled (verified_loop ip_String i cs)"
  by (induction cs arbitrary: i) (simp_all add: chain_loop_arity)

lemma Exporter_Collect_label_arity:
  assumes "Exporter_Collect ip_String e ms out"
  shows "list_all well_labelled ms"
  using assms
  by cases
     (simp_all add: peer_loop_arity verified_loop_arity well_labelled_def
        MustNewConstMetric_def proberType_def tlsVersion_def tlsConnectSuccess_def NewDesc_def)

text \<open>The names of the seven descriptors, and the descriptors of the samples.\<close>

lemma fqName_descs:
  "fqName tlsConnectSuccess = ''ssl_tls_connect_success''"
  "fqName tlsVersion = ''ssl_tls_version_info''"
  "fqName proberType = ''ssl_prober''"
  "fqName notBefore = ''ssl_cert_not_before''"
  "fqName notAfter = ''ssl_cert_not_after''"
  "fqName verifiedNotBefore = ''ssl_verified_cert_not_before''"
  "fqName verifiedNotAfter = ''ssl_verfied_cert_not_after''"
  by (simp_all add: tlsConnectSuccess_def tlsVersion_def proberType_def notBefore_def
      notAfter_def verifiedNotBefore_def verifiedNotAfter_def NewDesc_def BuildFQName_def
      namespace_def)

lemma Describe_names:
  "map fqName Describe =
     [''ssl_tls_connect_success'', ''ssl_tls_version_info'', ''ssl_prober'',
      ''ssl_cert_not_after'', ''ssl_cert_not_before'',
      ''ssl_verfied_cert_not_after'', ''ssl_verified_cert_not_before'']"
  by (simp add: Describe_def fqName_descs)

lemma not_after_name_absent: "''ssl_verified_cert_not_after'' \<notin> set (map fqName Describe)"
  unfolding Describe_names by simp

lemma peer_loop_descs:
  "list_all (\<lambda>x. desc x \<in> set Describe) (peer_loop ip_String certs)"
  by (induction certs) (simp_all add: MustNewConstMetric_def Describe_def)

lemma chain_loop_descs:
  "list_all (\<lambda>x. desc x = verifiedNotAfter \<or> desc x = verifiedNotBefore)
     (chain_loop ip_String i certs)"
  by (induction certs) (simp_all add: MustNewConstMetric_def)

lemma verified_loop_descs:
  "list_all (\<lambda>x. desc x = verifiedNotAfter \<or> desc x = verifiedNotBefore)
     (verified_loop ip_String i cs)"
  by (induction cs arbitrary: i) (simp_all add: chain_loop_descs)

lemma verified_loop_Describe:
  "list_all (\<lambda>x. desc x \<in> set Describe) (verified_loop ip_String i cs)"
  using verified_loop_descs [of ip_String i cs]
  by (auto simp: list_all_iff Describe_def)

lemma Exporter_Collect_descs:
  assumes "Exporter_Collect ip_String e ms out"
  shows "list_all (\<lambda>x. desc x \<in> set Describe) ms"
  using assms
proof cases
  case (probe_failed err)
  then show ?thesis by (simp add: MustNewConstMetric_def Describe_def)
next
  case (no_certificates state m)
  then show ?thesis by (simp add: MustNewConstMetric_def Describe_def)
next
  case (certificates state m ranked)
  have "list_all (\<lambda>x. desc x \<in> set Describe)
          [MustNewConstMetric proberType 1 [Prober (module e)],
           MustNewConstMetric tlsVersion 1 [getTLSVersion state],
           MustNewConstMetric tlsConnectSuccess 1 []]"
    by (simp add: MustNewConstMetric_def Describe_def)
  with peer_loop_descs verified_loop_Describe show ?thesis
    unfolding certificates by simp
qed

text \<open>No run of \<^verbatim>\<open>Collect\<close> sends a sample named ssl\_verified\_cert\_not\_after.\<close>

lemma Exporter_Collect_never_verified_cert_not_after:
  assumes "Exporter_Collect ip_String e ms out"
  shows "list_all (\<lambda>x. fqName (desc x) \<noteq> ''ssl_verified_cert_not_after'') ms"
proof -
  have "fqName d \<noteq> ''ssl_verified_cert_not_after''" if "d \<in> set Describe" for d
    using that not_after_name_absent by (metis image_eqI set_map)
  with Exporter_Collect_descs [OF assms] show ?thesis
    by (simp add: list_all_iff)
qed

text \<open>
  Every certificate that survives deduplication in the chain at index \<open>k\<close> of the ranked
  slice gets a sample for each of its two dates that is not zero, labelled with \<open>k\<close> in
  decimal and the seven certificate labels.
\<close>

lemma chain_loop_not_after:
  "cert \<in> set certs \<Longrightarrow> \<not> IsZero (NotAfter cert) \<Longrightarrow>
     MustNewConstMetric verifiedNotAfter (unixSeconds (NotAfter cert))
       (Itoa i # cert_labels ip_String cert) \<in> set (chain_loop ip_String i certs)"
  by (induction certs) auto

lemma chain_loop_not_before:
  "cert \<in> set certs \<Longrightarrow> \<not> IsZero (NotBefore cert) \<Longrightarrow>
     MustNewConstMetric verifiedNotBefore (unixSeconds (NotBefore cert))
       (Itoa i # cert_labels ip_String cert) \<in> set (chain_loop ip_String i certs)"
  by (induction certs) auto

lemma verified_loop_chain:
  "k < length cs \<Longrightarrow>
     set (chain_loop ip_String (i + int k) (uniq (cs ! k))) \<subseteq> set (verified_loop ip_String i cs)"
proof (induction cs arbitrary: i k)
  case Nil
  then show ?case by simp
next
  case (Cons c cs)
  show ?case
  proof (cases k)
    case 0
    then show ?thesis by simp
  next
    case (Suc k')
    with Cons.prems have "k' < length cs" by simp
    from Cons.IH [OF this, of "i + 1"] Suc show ?thesis
      by (auto simp: algebra_simps)
  qed
qed

lemma Exporter_Collect_verified_samples:
  assumes "Exporter_Collect ip_String e ms (Some (state, m'))"
    and "PeerCertificates state \<noteq> []"
    and "k < slen (VerifiedChains state)"
    and "cert \<in> set (uniq (load m' (VerifiedChains state) ! k))"
  shows "(\<not> IsZero (NotAfter cert) \<longrightarrow>
            MustNewConstMetric verifiedNotAfter (unixSeconds (NotAfter cert))
              (Itoa (int k) # cert_labels ip_String cert) \<in> set ms)
       \<and> (\<not> IsZero (NotBefore cert) \<longrightarrow>
            MustNewConstMetric verifiedNotBefore (unixSeconds (NotBefore cert))
              (Itoa (int k) # cert_labels ip_String cert) \<in> set ms)"
  using assms(1)
proof cases
  case (no_certificates)
  with assms(2) show ?thesis by simp
next
  case (certificates m ranked)
  from certificates(5) have len: "length ranked = slen (VerifiedChains state)"
    by (simp add: RankChains_length length_load)
  then have l: "load m' (VerifiedChains state) = ranked"
    unfolding certificates(2) by (rule load_store)
  from assms(3) len have k: "k < length ranked" by simp
  from verified_loop_chain [OF k, where ip_String = ip_String and i = 0]
  have sub: "set (chain_loop ip_String (int k) (uniq (ranked ! k))) \<subseteq> set ms"
    unfolding certificates(1) by auto
  from assms(4) have c: "cert \<in> set (uniq (ranked ! k))" unfolding l .
  from chain_loop_not_after [OF c, where ip_String = ip_String and i = "int k"]
       chain_loop_not_before [OF c, where ip_String = ip_String and i = "int k"] sub
  show ?thesis by blast
qed

section \<open>The concrete inputs\<close>

lemma ex_probe:
  "prober (ex_exporter peers cs) (target (ex_exporter peers cs)) (module (ex_exporter peers cs))
     (timeout (ex_exporter peers cs)) = Inr (ex_state peers cs, ex_memory cs)"
  by (simp add: ex_exporter_def)

lemma ex_load: "load (ex_memory cs) (ex_slice cs) = cs"
  by (rule nth_equalityI) (simp_all add: load_def ex_memory_def ex_slice_def)

lemma ex_state_simps:
  "PeerCertificates (ex_state peers cs) = peers"
  "VerifiedChains (ex_state peers cs) = ex_slice cs"
  "getTLSVersion (ex_state peers cs) = ''TLS 1.2''"
  by (simp_all add: ex_state_def getTLSVersion_def)

text \<open>A run of \<^verbatim>\<open>Collect\<close> on an example exporter, for a ranking of its chains.\<close>

lemma ex_Collect:
  assumes "peers \<noteq> []" and "RankChains cs ranked"
  shows "Exporter_Collect dotted (ex_exporter peers cs)
     ([MustNewConstMetric proberType 1 [''tcp''],
       MustNewConstMetric tlsVersion 1 [''TLS 1.2''],
       MustNewConstMetric tlsConnectSuccess 1 []]
      @ peer_loop dotted (uniq peers)
      @ verified_loop dotted 0 ranked)
     (Some (ex_state peers cs, store (ex_memory cs) (ex_slice cs) ranked))"
proof -
  let ?e = "ex_exporter peers cs"
  from assms(1) have n: "\<not> length (PeerCertificates (ex_state peers cs)) < 1"
    by (simp add: ex_state_simps)
  from assms(2)
  have r: "RankChains (load (ex_memory cs) (VerifiedChains (ex_state peers cs))) ranked"
    by (simp add: ex_state_simps ex_load)
  have "Prober (module ?e) = ''tcp''" by (simp add: ex_exporter_def)
  with Exporter_Collect.certificates [of ?e, OF ex_probe n r, of dotted] show ?thesis
    by (simp add: ex_state_simps)
qed

lemma ex_expiries:
  "expiry ex_chainA = Unix 1704067200 500"
  "expiry ex_chainB = Unix 1704067200 500"
  "expiry [ex_leaf] = Unix 1704067200 500"
  "expiry [ex_rootA] = Unix 1893456000 0"
  "expiry [ex_year0] = \<lparr>sec = - 1, nsec = 0\<rparr>"
  "expiry [ex_undated] = zeroTime"
  by (simp_all add: expiry_def ex_chainA_def ex_chainB_def ex_leaf_def ex_rootA_def ex_rootB_def
      ex_year0_def ex_undated_def
      ex_cert_def Unix_def unixToInternal_def zeroTime_def IsZero_def Before_def)

lemma expiry_ex_tied: "expiry (ex_tied k) = Unix 1704067200 0"
  by (simp add: expiry_def ex_tied_def ex_cert_def Unix_def unixToInternal_def zeroTime_def
      IsZero_def Before_def)

lemma ex_tied_inj: "ex_tied k = ex_tied l \<longleftrightarrow> k = l"
  by (simp add: ex_tied_def ex_cert_def)

lemma RankChains_thirteen: "RankChains ex_thirteen ex_thirteen_ranked"
proof -
  have "mset ex_thirteen_ranked = mset ex_thirteen"
    by (simp add: ex_thirteen_def ex_thirteen_ranked_def)
  moreover have "sorted_wrt (\<lambda>a b. \<not> chain_less b a) ex_thirteen_ranked"
    by (simp add: ex_thirteen_ranked_def chain_less_def expiry_ex_tied ex_expiries After_def
        Unix_def)
  ultimately show ?thesis by (simp add: RankChains_def sort_Slice_def)
qed

lemma RankChains_swap: "RankChains [[ex_leaf], [ex_rootA]] [[ex_rootA], [ex_leaf]]"
  by (simp add: RankChains_def sort_Slice_def chain_less_def ex_expiries After_def Unix_def)

lemma ex_chainA_samples:
  "map (\<lambda>x. (fqName (desc x), gauge x, labelValues x)) (verified_loop dotted 0 [ex_chainA])
      = [(''ssl_verfied_cert_not_after'', 1704067200,
           [''0'', ''7'', ''Example CA'', ''a.com'', '',a.com,b.com,'', '',192.0.2.1,'', [],
            '',ops,'']),
         (''ssl_verified_cert_not_before'', 1672531200,
           [''0'', ''7'', ''Example CA'', ''a.com'', '',a.com,b.com,'', '',192.0.2.1,'', [],
            '',ops,'']),
         (''ssl_verfied_cert_not_after'', 1893456000,
           [''0'', ''10'', ''Root A'', ''Example CA'', '',a.com,b.com,'', '',192.0.2.1,'', [],
            '',ops,'']),
         (''ssl_verified_cert_not_before'', 1577836800,
           [''0'', ''10'', ''Root A'', ''Example CA'', '',a.com,b.com,'', '',192.0.2.1,'', [],
            '',ops,''])]"
  by code_simp

section \<open>The samples of Collect\<close>

text \<open>
  Claim C1. The samples for the certificates of the verified chains are to be named
  ssl\_verified\_cert\_not\_before and ssl\_verified\_cert\_not\_after, with the labels
  chain\_no, serial\_no, issuer\_cn, cn, dnsnames, ips, emails, ou. The code builds the
  second name from the string \<^verbatim>\<open>verfied_cert_not_after\<close>: the label names are as
  claimed and the first name is as claimed, but the not-after samples are named
  ssl\_verfied\_cert\_not\_after (for which certificates a sample is sent is lemma
  \<open>Exporter_Collect_verified_samples\<close>). The run below is \<^verbatim>\<open>Collect\<close> for one peer certificate
  and one verified chain of a leaf and a root, both with dates.
\<close>

theorem verified_not_after_name_misspelt:
  "fqName verifiedNotAfter = ''ssl_verfied_cert_not_after''
   \<and> fqName verifiedNotAfter \<noteq> ''ssl_verified_cert_not_after''
   \<and> fqName verifiedNotBefore = ''ssl_verified_cert_not_before''
   \<and> variableLabels verifiedNotAfter =
       [''chain_no'', ''serial_no'', ''issuer_cn'', ''cn'', ''dnsnames'', ''ips'', ''emails'',
        ''ou'']
   \<and> variableLabels verifiedNotBefore =
       [''chain_no'', ''serial_no'', ''issuer_cn'', ''cn'', ''dnsnames'', ''ips'', ''emails'',
        ''ou'']
   \<and> Exporter_Collect dotted (ex_exporter [ex_leaf] [ex_chainA])
       ([MustNewConstMetric proberType 1 [''tcp''],
         MustNewConstMetric tlsVersion 1 [''TLS 1.2''],
         MustNewConstMetric tlsConnectSuccess 1 []]
        @ peer_loop dotted (uniq [ex_leaf])
        @ verified_loop dotted 0 [ex_chainA])
       (Some (ex_state [ex_leaf] [ex_chainA],
              store (ex_memory [ex_chainA]) (ex_slice [ex_chainA]) [ex_chainA]))
   \<and> map (\<lambda>x. (fqName (desc x), gauge x, labelValues x)) (verified_loop dotted 0 [ex_chainA])
      = [(''ssl_verfied_cert_not_after'', 1704067200,
           [''0'', ''7'', ''Example CA'', ''a.com'', '',a.com,b.com,'', '',192.0.2.1,'', [],
            '',ops,'']),
         (''ssl_verified_cert_not_before'', 1672531200,
           [''0'', ''7'', ''Example CA'', ''a.com'', '',a.com,b.com,'', '',192.0.2.1,'', [],
            '',ops,'']),
         (''ssl_verfied_cert_not_after'', 1893456000,
           [''0'', ''10'', ''Root A'', ''Example CA'', '',a.com,b.com,'', '',192.0.2.1,'', [],
            '',ops,'']),
         (''ssl_verified_cert_not_before'', 1577836800,
           [''0'', ''10'', ''Root A'', ''Example CA'', '',a.com,b.com,'', '',192.0.2.1,'', [],
            '',ops,''])]"
proof -
  have r: "RankChains [ex_chainA] [ex_chainA]"
    by (simp add: RankChains_def sort_Slice_def)
  have c: "Exporter_Collect dotted (ex_exporter [ex_leaf] [ex_chainA])
       ([MustNewConstMetric proberType 1 [''tcp''],
         MustNewConstMetric tlsVersion 1 [''TLS 1.2''],
         MustNewConstMetric tlsConnectSuccess 1 []]
        @ peer_loop dotted (uniq [ex_leaf])
        @ verified_loop dotted 0 [ex_chainA])
       (Some (ex_state [ex_leaf] [ex_chainA],
              store (ex_memory [ex_chainA]) (ex_slice [ex_chainA]) [ex_chainA]))"
    by (rule ex_Collect [OF _ r]) simp
  have l: "variableLabels verifiedNotAfter =
       [''chain_no'', ''serial_no'', ''issuer_cn'', ''cn'', ''dnsnames'', ''ips'', ''emails'',
        ''ou'']"
    "variableLabels verifiedNotBefore =
       [''chain_no'', ''serial_no'', ''issuer_cn'', ''cn'', ''dnsnames'', ''ips'', ''emails'',
        ''ou'']"
    by (simp_all add: verifiedNotAfter_def verifiedNotBefore_def NewDesc_def)
  have n: "fqName verifiedNotAfter \<noteq> ''ssl_verified_cert_not_after''"
    by (simp add: fqName_descs)
  from c l n ex_chainA_samples fqName_descs(6,7) show ?thesis by (intro conjI)
qed

text \<open>
  Claim C3, as the code has it. When the probe succeeds and the peer certificate chain is
  empty, \<^verbatim>\<open>Collect\<close> sends exactly three samples, in this order: ssl\_prober = 1 with
  the prober's name, ssl\_tls\_version\_info = 1 with the negotiated version, and
  ssl\_tls\_connect\_success = 0. There is such a run, every run is this one, and it leaves
  the connection state and the memory as the prober returned them. No sample for a
  certificate is among the three.
\<close>

theorem Collect_without_peer_certificates:
  assumes "prober e (target e) (module e) (timeout e) = Inr (state, m)"
    and "PeerCertificates state = []"
  shows "Exporter_Collect ip_String e
           [MustNewConstMetric proberType 1 [Prober (module e)],
            MustNewConstMetric tlsVersion 1 [getTLSVersion state],
            MustNewConstMetric tlsConnectSuccess 0 []]
           (Some (state, m))
     \<and> (\<forall>ms out. Exporter_Collect ip_String e ms out \<longrightarrow>
           ms = [MustNewConstMetric proberType 1 [Prober (module e)],
                 MustNewConstMetric tlsVersion 1 [getTLSVersion state],
                 MustNewConstMetric tlsConnectSuccess 0 []]
           \<and> out = Some (state, m))
     \<and> map (\<lambda>x. (fqName (desc x), gauge x, labelValues x))
           [MustNewConstMetric proberType 1 [Prober (module e)],
            MustNewConstMetric tlsVersion 1 [getTLSVersion state],
            MustNewConstMetric tlsConnectSuccess 0 []]
         = [(''ssl_prober'', 1, [Prober (module e)]),
            (''ssl_tls_version_info'', 1, [getTLSVersion state]),
            (''ssl_tls_connect_success'', 0, [])]"
proof -
  from assms(2) have n: "length (PeerCertificates state) < 1" by simp
  have a: "Exporter_Collect ip_String e
           [MustNewConstMetric proberType 1 [Prober (module e)],
            MustNewConstMetric tlsVersion 1 [getTLSVersion state],
            MustNewConstMetric tlsConnectSuccess 0 []]
           (Some (state, m))"
    by (rule Exporter_Collect.no_certificates [OF assms(1) n])
  have b: "\<forall>ms out. Exporter_Collect ip_String e ms out \<longrightarrow>
           ms = [MustNewConstMetric proberType 1 [Prober (module e)],
                 MustNewConstMetric tlsVersion 1 [getTLSVersion state],
                 MustNewConstMetric tlsConnectSuccess 0 []]
           \<and> out = Some (state, m)"
    by (simp add: Exporter_Collect_no_certificates [OF assms(1) n])
  have c: "map (\<lambda>x. (fqName (desc x), gauge x, labelValues x))
           [MustNewConstMetric proberType 1 [Prober (module e)],
            MustNewConstMetric tlsVersion 1 [getTLSVersion state],
            MustNewConstMetric tlsConnectSuccess 0 []]
         = [(''ssl_prober'', 1, [Prober (module e)]),
            (''ssl_tls_version_info'', 1, [getTLSVersion state]),
            (''ssl_tls_connect_success'', 0, [])]"
    by (simp add: MustNewConstMetric_def fqName_descs)
  from a b c show ?thesis by (intro conjI)
qed

text \<open>The theorem at an exporter whose prober returns a TLS 1.2 state without certificates.\<close>

theorem Collect_without_peer_certificates_witness:
  "PeerCertificates (ex_state [] []) = []
   \<and> Exporter_Collect dotted (ex_exporter [] [])
       [MustNewConstMetric proberType 1 [''tcp''],
        MustNewConstMetric tlsVersion 1 [''TLS 1.2''],
        MustNewConstMetric tlsConnectSuccess 0 []]
       (Some (ex_state [] [], ex_memory []))"
proof -
  have p: "PeerCertificates (ex_state [] []) = []" by (simp add: ex_state_simps)
  have "Prober (module (ex_exporter [] [])) = ''tcp''" by (simp add: ex_exporter_def)
  with Collect_without_peer_certificates [OF ex_probe p, of dotted] p show ?thesis
    by (simp add: ex_state_simps)
qed

text \<open>
  Claim C3 as stated fails: with no peer certificate the samples are not just
  ssl\_prober and ssl\_tls\_connect\_success; ssl\_tls\_version\_info = 1 is sent between
  them.
\<close>

theorem tls_version_info_emitted_counterexample:
  "Exporter_Collect dotted (ex_exporter [] [])
       [MustNewConstMetric proberType 1 [''tcp''],
        MustNewConstMetric tlsVersion 1 [''TLS 1.2''],
        MustNewConstMetric tlsConnectSuccess 0 []]
       (Some (ex_state [] [], ex_memory []))
   \<and> map (\<lambda>x. (fqName (desc x), gauge x))
        [MustNewConstMetric proberType 1 [''tcp''],
         MustNewConstMetric tlsVersion 1 [''TLS 1.2''],
         MustNewConstMetric tlsConnectSuccess 0 []]
      = [(''ssl_prober'', 1), (''ssl_tls_version_info'', 1), (''ssl_tls_connect_success'', 0)]
   \<and> PeerCertificates (ex_state [] []) = []"
proof -
  have n: "length (PeerCertificates (ex_state [] [])) < 1" by (simp add: ex_state_simps)
  have "Prober (module (ex_exporter [] [])) = ''tcp''" by (simp add: ex_exporter_def)
  with Exporter_Collect.no_certificates [OF ex_probe n, of dotted] show ?thesis
    by (simp add: ex_state_simps MustNewConstMetric_def fqName_descs)
qed

section \<open>The ranked chains\<close>

text \<open>
  Claim C9. After a successful probe with at least one peer certificate, every run of
  \<^verbatim>\<open>Collect\<close> leaves the connection state the prober returned, so the peer
  certificates and the slice header of the verified chains are untouched, and a memory in
  which the cells of \<^verbatim>\<open>state.VerifiedChains\<close> hold the same chains as before,
  rearranged into ranked order; every other cell is unchanged. The chain numbered \<open>i\<close> in
  the samples is the chain the slice holds at index \<open>i\<close> afterwards.
\<close>

theorem Collect_sorts_VerifiedChains_in_place:
  assumes "prober e (target e) (module e) (timeout e) = Inr (state, m)"
    and "length (PeerCertificates state) \<ge> 1"
    and "Exporter_Collect ip_String e ms out"
  shows "(case out of
            None \<Rightarrow> False
          | Some (state', m') \<Rightarrow>
              state' = state
              \<and> PeerCertificates state' = PeerCertificates state
              \<and> mset (load m' (VerifiedChains state)) = mset (load m (VerifiedChains state))
              \<and> sorted_wrt (\<lambda>a b. \<not> After (expiry b) (expiry a))
                   (load m' (VerifiedChains state))
              \<and> m' = store m (VerifiedChains state) (load m' (VerifiedChains state))
              \<and> (\<forall>a. a < ptr (VerifiedChains state)
                       \<or> ptr (VerifiedChains state) + slen (VerifiedChains state) \<le> a
                    \<longrightarrow> m' a = m a)
              \<and> ms = [MustNewConstMetric proberType 1 [Prober (module e)],
                       MustNewConstMetric tlsVersion 1 [getTLSVersion state],
                       MustNewConstMetric tlsConnectSuccess 1 []]
                      @ peer_loop ip_String (uniq (PeerCertificates state))
                      @ verified_loop ip_String 0 (load m' (VerifiedChains state)))"
proof -
  from assms(2) have n: "\<not> length (PeerCertificates state) < 1" by linarith
  from assms(3) obtain ranked where
    r: "RankChains (load m (VerifiedChains state)) ranked"
    and ms: "ms = [MustNewConstMetric proberType 1 [Prober (module e)],
                   MustNewConstMetric tlsVersion 1 [getTLSVersion state],
                   MustNewConstMetric tlsConnectSuccess 1 []]
                  @ peer_loop ip_String (uniq (PeerCertificates state))
                  @ verified_loop ip_String 0 ranked"
    and out: "out = Some (state, store m (VerifiedChains state) ranked)"
    unfolding Exporter_Collect_certificates [OF assms(1) n] by blast
  from r have "length ranked = slen (VerifiedChains state)"
    by (simp add: RankChains_length length_load)
  then have l: "load (store m (VerifiedChains state) ranked) (VerifiedChains state) = ranked"
    by (rule load_store)
  from r have s: "mset ranked = mset (load m (VerifiedChains state))"
    "sorted_wrt (\<lambda>a b. \<not> After (expiry b) (expiry a)) ranked"
    by (simp_all add: RankChains_def sort_Slice_def chain_less_def)
  have f: "\<forall>a. a < ptr (VerifiedChains state)
              \<or> ptr (VerifiedChains state) + slen (VerifiedChains state) \<le> a
            \<longrightarrow> store m (VerifiedChains state) ranked a = m a"
    by (simp add: store_frame)
  from l s f ms show ?thesis unfolding out by simp
qed

text \<open>
  The theorem at a state whose two verified chains arrive with the earlier expiry first:
  the run swaps them in the memory.
\<close>

theorem Collect_sorts_VerifiedChains_in_place_witness:
  "Exporter_Collect dotted (ex_exporter [ex_leaf] [[ex_leaf], [ex_rootA]])
     ([MustNewConstMetric proberType 1 [''tcp''],
       MustNewConstMetric tlsVersion 1 [''TLS 1.2''],
       MustNewConstMetric tlsConnectSuccess 1 []]
      @ peer_loop dotted (uniq [ex_leaf])
      @ verified_loop dotted 0 [[ex_rootA], [ex_leaf]])
     (Some (ex_state [ex_leaf] [[ex_leaf], [ex_rootA]],
            store (ex_memory [[ex_leaf], [ex_rootA]]) (ex_slice [[ex_leaf], [ex_rootA]])
              [[ex_rootA], [ex_leaf]]))
   \<and> load (ex_memory [[ex_leaf], [ex_rootA]]) (ex_slice [[ex_leaf], [ex_rootA]])
       = [[ex_leaf], [ex_rootA]]
   \<and> mset (load (store (ex_memory [[ex_leaf], [ex_rootA]]) (ex_slice [[ex_leaf], [ex_rootA]])
              [[ex_rootA], [ex_leaf]]) (ex_slice [[ex_leaf], [ex_rootA]]))
       = mset [[ex_leaf], [ex_rootA]]
   \<and> PeerCertificates (ex_state [ex_leaf] [[ex_leaf], [ex_rootA]]) = [ex_leaf]"
proof -
  let ?cs = "[[ex_leaf], [ex_rootA]]"
  let ?e = "ex_exporter [ex_leaf] ?cs"
  have c: "Exporter_Collect dotted ?e
     ([MustNewConstMetric proberType 1 [''tcp''],
       MustNewConstMetric tlsVersion 1 [''TLS 1.2''],
       MustNewConstMetric tlsConnectSuccess 1 []]
      @ peer_loop dotted (uniq [ex_leaf])
      @ verified_loop dotted 0 [[ex_rootA], [ex_leaf]])
     (Some (ex_state [ex_leaf] ?cs, store (ex_memory ?cs) (ex_slice ?cs) [[ex_rootA], [ex_leaf]]))"
    by (rule ex_Collect [OF _ RankChains_swap]) simp
  have n: "length (PeerCertificates (ex_state [ex_leaf] ?cs)) \<ge> 1"
    by (simp add: ex_state_simps)
  from Collect_sorts_VerifiedChains_in_place [OF ex_probe n c] c show ?thesis
    by (simp add: ex_state_simps ex_load)
qed

text \<open>
  Claim C5, as the code has it. Whatever the order in which the chains arrive, a chain
  whose effective expiry is strictly later stands before a chain whose effective expiry is
  earlier, and the ranked chains are the chains that arrived. The effective expiry of a
  chain without a non-zero \<^verbatim>\<open>NotAfter\<close> is the zero time, so such a chain stands after
  every chain whose effective expiry is later than the zero time, and before every chain
  whose effective expiry is earlier than the zero time.
\<close>

theorem RankChains_by_effective_expiry_descending:
  assumes "mset vcs' = mset vcs"
    and "RankChains vcs' ranked"
    and "i < length ranked" and "j < length ranked"
    and "effective_expiry (ranked ! i) tA" and "effective_expiry (ranked ! j) tB"
  shows "mset ranked = mset vcs
     \<and> (After tA tB \<longrightarrow> i < j)
     \<and> (list_all (\<lambda>c. IsZero (NotAfter c)) (ranked ! j) \<and> After tA zeroTime \<longrightarrow> i < j)
     \<and> (list_all (\<lambda>c. IsZero (NotAfter c)) (ranked ! i) \<and> Before tB zeroTime \<longrightarrow> i < j)"
proof -
  from assms(5,6) have t: "tA = expiry (ranked ! i)" "tB = expiry (ranked ! j)"
    by (simp_all add: effective_expiry_iff)
  have later: "After tA tB \<Longrightarrow> i < j"
    using RankChains_later_first [OF assms(2-4)] t by simp
  have perm: "mset ranked = mset vcs"
    using assms(1,2) by (simp add: RankChains_def sort_Slice_def)
  have undated_last:
    "list_all (\<lambda>c. IsZero (NotAfter c)) (ranked ! j) \<Longrightarrow> After tA zeroTime \<Longrightarrow> i < j"
    using later t by (simp add: expiry_undated)
  have undated_first:
    "list_all (\<lambda>c. IsZero (NotAfter c)) (ranked ! i) \<Longrightarrow> Before tB zeroTime \<Longrightarrow> i < j"
    using later t by (simp add: expiry_undated After_Before)
  from perm later undated_last undated_first show ?thesis by blast
qed

text \<open>
  The theorem for three chains that arrive as root, undated, leaf: the leaf chain (index 1
  of the ranking) stands before the undated chain (index 2).
\<close>

theorem RankChains_by_effective_expiry_descending_witness:
  "mset [[ex_rootA], [ex_undated], [ex_leaf]] = mset [[ex_undated], [ex_leaf], [ex_rootA]]
   \<and> RankChains [[ex_rootA], [ex_undated], [ex_leaf]] [[ex_rootA], [ex_leaf], [ex_undated]]
   \<and> effective_expiry [ex_leaf] (Unix 1704067200 500)
   \<and> effective_expiry [ex_undated] zeroTime
   \<and> After (Unix 1704067200 500) zeroTime
   \<and> list_all (\<lambda>c. IsZero (NotAfter c)) [ex_undated]
   \<and> mset [[ex_rootA], [ex_leaf], [ex_undated]] = mset [[ex_undated], [ex_leaf], [ex_rootA]]
   \<and> (1 :: nat) < 2"
proof -
  let ?ranked = "[[ex_rootA], [ex_leaf], [ex_undated]]"
  have p: "mset [[ex_rootA], [ex_undated], [ex_leaf]] = mset [[ex_undated], [ex_leaf], [ex_rootA]]"
    by simp
  have r: "RankChains [[ex_rootA], [ex_undated], [ex_leaf]] ?ranked"
    by (simp add: RankChains_def sort_Slice_def chain_less_def ex_expiries After_def Unix_def
        zeroTime_def unixToInternal_def)
  have a: "effective_expiry (?ranked ! 1) (Unix 1704067200 500)"
    by (simp add: effective_expiry_iff ex_expiries)
  have b: "effective_expiry (?ranked ! 2) zeroTime"
    by (simp add: effective_expiry_iff ex_expiries)
  have l: "After (Unix 1704067200 500) zeroTime"
    by (simp add: After_def Unix_def zeroTime_def unixToInternal_def)
  have u: "list_all (\<lambda>c. IsZero (NotAfter c)) [ex_undated]"
    by (simp add: ex_undated_def ex_cert_def IsZero_def zeroTime_def)
  from RankChains_by_effective_expiry_descending [OF p r _ _ a b] p r a b l u show ?thesis
    by simp
qed

text \<open>
  Claim C5 as stated fails for a chain that expired before the zero time (January 1 of
  year 1): its effective expiry is not zero, yet the only ranking of it and an undated
  chain puts the undated chain first.
\<close>

theorem undated_chain_not_last_counterexample:
  "RankChains [[ex_year0], [ex_undated]] [[ex_undated], [ex_year0]]
   \<and> \<not> RankChains [[ex_year0], [ex_undated]] [[ex_year0], [ex_undated]]
   \<and> list_all (\<lambda>c. IsZero (NotAfter c)) [ex_undated]
   \<and> effective_expiry [ex_year0] \<lparr>sec = - 1, nsec = 0\<rparr>
   \<and> \<not> IsZero \<lparr>sec = - 1, nsec = 0\<rparr>"
proof -
  have r: "RankChains [[ex_year0], [ex_undated]] [[ex_undated], [ex_year0]]"
    by (simp add: RankChains_def sort_Slice_def chain_less_def ex_expiries After_def zeroTime_def)
  have n: "\<not> RankChains [[ex_year0], [ex_undated]] [[ex_year0], [ex_undated]]"
    by (simp add: RankChains_def sort_Slice_def chain_less_def ex_expiries After_def zeroTime_def)
  have u: "list_all (\<lambda>c. IsZero (NotAfter c)) [ex_undated]"
    by (simp add: ex_undated_def ex_cert_def IsZero_def zeroTime_def)
  have e: "effective_expiry [ex_year0] \<lparr>sec = - 1, nsec = 0\<rparr>"
    by (simp add: effective_expiry_iff ex_expiries)
  have z: "\<not> IsZero \<lparr>sec = - 1, nsec = 0\<rparr>"
    by (simp add: IsZero_def)
  from r n u e z show ?thesis by (intro conjI)
qed

text \<open>
  Claim C2, as the code has it. \<^verbatim>\<open>sort.Slice\<close> does not promise to keep chains of
  equal effective expiry in their input order. What holds is that such chains stand next to
  each other: a chain ranked between two chains of the same effective expiry has that
  effective expiry too, and the ranked chains are the chains that arrived.
\<close>

theorem RankChains_ties_contiguous:
  assumes "RankChains vcs ranked"
    and "i < k" and "k < j" and "j < length ranked"
    and "effective_expiry (ranked ! i) t" and "effective_expiry (ranked ! j) t"
  shows "effective_expiry (ranked ! k) t \<and> mset ranked = mset vcs"
proof -
  from assms(5,6) have "expiry (ranked ! i) = expiry (ranked ! j)" "t = expiry (ranked ! i)"
    by (simp_all add: effective_expiry_iff)
  with RankChains_ties_adjacent [OF assms(1-4)] have "effective_expiry (ranked ! k) t"
    by (simp add: effective_expiry_iff)
  with assms(1) show ?thesis by (simp add: RankChains_def sort_Slice_def)
qed

text \<open>The theorem for four chains, three of which expire with the leaf.\<close>

theorem RankChains_ties_contiguous_witness:
  "RankChains [ex_chainA, [ex_rootA], ex_chainB, [ex_leaf]]
     [[ex_rootA], ex_chainB, [ex_leaf], ex_chainA]
   \<and> effective_expiry ex_chainB (Unix 1704067200 500)
   \<and> effective_expiry ex_chainA (Unix 1704067200 500)
   \<and> effective_expiry [ex_leaf] (Unix 1704067200 500)"
proof -
  let ?ranked = "[[ex_rootA], ex_chainB, [ex_leaf], ex_chainA]"
  have r: "RankChains [ex_chainA, [ex_rootA], ex_chainB, [ex_leaf]] ?ranked"
    by (simp add: RankChains_def sort_Slice_def chain_less_def ex_expiries After_def Unix_def)
  have b: "effective_expiry (?ranked ! 1) (Unix 1704067200 500)"
    by (simp add: effective_expiry_iff ex_expiries)
  have a: "effective_expiry (?ranked ! 3) (Unix 1704067200 500)"
    by (simp add: effective_expiry_iff ex_expiries)
  from RankChains_ties_contiguous [OF r _ _ _ b a, of 2] r a b show ?thesis
    by simp
qed

text \<open>
  Claim C2 as stated fails. For the thirteen chains of \<open>ex_thirteen\<close> there is a run of
  \<^verbatim>\<open>Collect\<close> that leaves them in the order \<open>ex_thirteen_ranked\<close>: the chains
  \<open>ex_tied 2\<close> and \<open>ex_tied 6\<close> expire at the same instant and arrive at indices 2 and 6,
  and the run ranks \<open>ex_tied 6\<close> at index 1, before \<open>ex_tied 2\<close> at index 2.
\<close>

theorem sort_Slice_reorders_ties_counterexample:
  "Exporter_Collect dotted (ex_exporter [ex_leaf] ex_thirteen)
     ([MustNewConstMetric proberType 1 [''tcp''],
       MustNewConstMetric tlsVersion 1 [''TLS 1.2''],
       MustNewConstMetric tlsConnectSuccess 1 []]
      @ peer_loop dotted (uniq [ex_leaf])
      @ verified_loop dotted 0 ex_thirteen_ranked)
     (Some (ex_state [ex_leaf] ex_thirteen,
            store (ex_memory ex_thirteen) (ex_slice ex_thirteen) ex_thirteen_ranked))
   \<and> load (ex_memory ex_thirteen) (ex_slice ex_thirteen) ! 2 = ex_tied 2
   \<and> load (ex_memory ex_thirteen) (ex_slice ex_thirteen) ! 6 = ex_tied 6
   \<and> load (store (ex_memory ex_thirteen) (ex_slice ex_thirteen) ex_thirteen_ranked)
        (ex_slice ex_thirteen) ! 1 = ex_tied 6
   \<and> load (store (ex_memory ex_thirteen) (ex_slice ex_thirteen) ex_thirteen_ranked)
        (ex_slice ex_thirteen) ! 2 = ex_tied 2
   \<and> expiry (ex_tied 2) = expiry (ex_tied 6)
   \<and> ex_tied 2 \<noteq> ex_tied 6"
proof -
  have c: "Exporter_Collect dotted (ex_exporter [ex_leaf] ex_thirteen)
     ([MustNewConstMetric proberType 1 [''tcp''],
       MustNewConstMetric tlsVersion 1 [''TLS 1.2''],
       MustNewConstMetric tlsConnectSuccess 1 []]
      @ peer_loop dotted (uniq [ex_leaf])
      @ verified_loop dotted 0 ex_thirteen_ranked)
     (Some (ex_state [ex_leaf] ex_thirteen,
            store (ex_memory ex_thirteen) (ex_slice ex_thirteen) ex_thirteen_ranked))"
    by (rule ex_Collect [OF _ RankChains_thirteen]) simp
  have "length ex_thirteen_ranked = slen (ex_slice ex_thirteen)"
    by (simp add: ex_slice_def ex_thirteen_def ex_thirteen_ranked_def)
  then have s: "load (store (ex_memory ex_thirteen) (ex_slice ex_thirteen) ex_thirteen_ranked)
        (ex_slice ex_thirteen) = ex_thirteen_ranked"
    by (rule load_store)
  have i: "ex_thirteen ! 2 = ex_tied 2" "ex_thirteen ! 6 = ex_tied 6"
    by (simp_all add: ex_thirteen_def)
  have o: "ex_thirteen_ranked ! 1 = ex_tied 6" "ex_thirteen_ranked ! 2 = ex_tied 2"
    by (simp_all add: ex_thirteen_ranked_def)
  from c i o show ?thesis
    unfolding s ex_load by (simp add: expiry_ex_tied ex_tied_inj)
qed

section \<open>probeHandler\<close>

text \<open>The handler with its local variables substituted.\<close>

lemma probeHandler_unfold:
  "probeHandler fl Probers r conf =
     (case Modules conf (requested_module r) of
        None \<Rightarrow> Error (Sprintf ''Unknown module %q'' [requested_module r]) StatusBadRequest
      | Some mo \<Rightarrow>
         (case (if Get (Header r) ''X-Prometheus-Scrape-Timeout-Seconds'' \<noteq> []
                then ParseFloat fl (Get (Header r) ''X-Prometheus-Scrape-Timeout-Seconds'')
                else Inr (ten fl)) of
            Inl err \<Rightarrow>
              Error (Sprintf ''Failed to parse timeout from Prometheus header: %s'' [err])
                StatusInternalServerError
          | Inr timeoutSeconds \<Rightarrow>
              if Get (Query r) ''target'' = [] then
                Error (Plain ''Target parameter is missing'') StatusBadRequest
              else
                (case Probers (Prober mo) of
                   None \<Rightarrow> Error (Sprintf ''Unknown prober %q'' [Prober mo]) StatusBadRequest
                 | Some p \<Rightarrow>
                     Serve \<lparr>target = Get (Query r) ''target'', prober = p,
                       timeout = to_Duration fl
                         (fmul fl (if is_zero fl timeoutSeconds then ten fl else timeoutSeconds)
                            (billion fl)),
                       module = mo\<rparr>)))"
  by (simp only: probeHandler_def requested_module_def Let_def)

text \<open>The four error responses, in the order in which the handler checks for them.\<close>

lemma probeHandler_unknown_module:
  assumes "Modules conf (requested_module r) = None"
  shows "probeHandler fl Probers r conf =
    Error (Sprintf ''Unknown module %q'' [requested_module r]) StatusBadRequest"
  by (simp add: probeHandler_unfold assms)

lemma probeHandler_malformed_timeout:
  assumes "Modules conf (requested_module r) = Some mo"
    and "Get (Header r) ''X-Prometheus-Scrape-Timeout-Seconds'' \<noteq> []"
    and "ParseFloat fl (Get (Header r) ''X-Prometheus-Scrape-Timeout-Seconds'') = Inl err"
  shows "probeHandler fl Probers r conf =
    Error (Sprintf ''Failed to parse timeout from Prometheus header: %s'' [err])
      StatusInternalServerError"
  by (simp add: probeHandler_unfold assms)

lemma not_malformed_timeout:
  assumes "\<not> malformed_timeout fl r"
  obtains "Get (Header r) ''X-Prometheus-Scrape-Timeout-Seconds'' = []"
  | x where "Get (Header r) ''X-Prometheus-Scrape-Timeout-Seconds'' \<noteq> []"
      and "ParseFloat fl (Get (Header r) ''X-Prometheus-Scrape-Timeout-Seconds'') = Inr x"
  using assms
  by (cases "ParseFloat fl (Get (Header r) ''X-Prometheus-Scrape-Timeout-Seconds'')")
     (auto simp: malformed_timeout_def)

lemma probeHandler_missing_target:
  assumes "Modules conf (requested_module r) = Some mo"
    and "\<not> malformed_timeout fl r"
    and "Get (Query r) ''target'' = []"
  shows "probeHandler fl Probers r conf =
    Error (Plain ''Target parameter is missing'') StatusBadRequest"
  using assms(2)
  by (rule not_malformed_timeout) (simp_all add: probeHandler_unfold assms(1,3))

lemma probeHandler_unknown_prober:
  assumes "Modules conf (requested_module r) = Some mo"
    and "\<not> malformed_timeout fl r"
    and "Get (Query r) ''target'' \<noteq> []"
    and "Probers (Prober mo) = None"
  shows "probeHandler fl Probers r conf =
    Error (Sprintf ''Unknown prober %q'' [Prober mo]) StatusBadRequest"
  using assms(2)
  by (rule not_malformed_timeout) (simp_all add: probeHandler_unfold assms(1,3,4))

text \<open>The two ways to a probe: without the header, and with a header that parses.\<close>

lemma probeHandler_default_timeout:
  assumes "Modules conf (requested_module r) = Some mo"
    and "Get (Header r) ''X-Prometheus-Scrape-Timeout-Seconds'' = []"
    and "Get (Query r) ''target'' \<noteq> []"
    and "Probers (Prober mo) = Some p"
  shows "probeHandler fl Probers r conf =
    Serve \<lparr>target = Get (Query r) ''target'', prober = p,
      timeout = to_Duration fl (fmul fl (ten fl) (billion fl)), module = mo\<rparr>"
  by (simp add: probeHandler_unfold assms)

lemma probeHandler_parsed_timeout:
  assumes "Modules conf (requested_module r) = Some mo"
    and "Get (Header r) ''X-Prometheus-Scrape-Timeout-Seconds'' \<noteq> []"
    and "ParseFloat fl (Get (Header r) ''X-Prometheus-Scrape-Timeout-Seconds'') = Inr v"
    and "Get (Query r) ''target'' \<noteq> []"
    and "Probers (Prober mo) = Some p"
  shows "probeHandler fl Probers r conf =
    Serve \<lparr>target = Get (Query r) ''target'', prober = p,
      timeout = to_Duration fl (fmul fl (if is_zero fl v then ten fl else v) (billion fl)),
      module = mo\<rparr>"
  by (simp add: probeHandler_unfold assms)

text \<open>
  Claim C4, as the code has it. A request is answered by \<^verbatim>\<open>http.Error\<close> exactly when
  it has a request error (unknown module, timeout header that does not parse, missing
  target, unknown prober), and then no exporter is built and \<^verbatim>\<open>Collect\<close> is not
  called. The status is 500 when the module is known and the timeout header does not
  parse, and 400 for every other request error.
\<close>

theorem probeHandler_request_errors:
  "(case probeHandler fl Probers r conf of
      Error msg code \<Rightarrow>
        request_error fl Probers r conf
        \<and> code = (if \<not> unknown_module r conf \<and> malformed_timeout fl r then 500 else 400)
    | Serve e \<Rightarrow> \<not> request_error fl Probers r conf)"
proof (cases "Modules conf (requested_module r)")
  case None
  then show ?thesis
    by (simp add: probeHandler_unknown_module request_error_def unknown_module_def
        StatusBadRequest_def)
next
  case (Some mo)
  then have known: "\<not> unknown_module r conf" by (simp add: unknown_module_def)
  show ?thesis
  proof (cases "malformed_timeout fl r")
    case True
    then obtain err where
      "Get (Header r) ''X-Prometheus-Scrape-Timeout-Seconds'' \<noteq> []"
      "ParseFloat fl (Get (Header r) ''X-Prometheus-Scrape-Timeout-Seconds'') = Inl err"
      by (cases "ParseFloat fl (Get (Header r) ''X-Prometheus-Scrape-Timeout-Seconds'')")
         (simp_all add: malformed_timeout_def)
    with Some True known show ?thesis
      by (simp add: probeHandler_malformed_timeout request_error_def
          StatusInternalServerError_def)
  next
    case False
    show ?thesis
    proof (cases "Get (Query r) ''target'' = []")
      case True
      with Some False show ?thesis
        by (simp add: probeHandler_missing_target request_error_def missing_target_def
            StatusBadRequest_def)
    next
      case given: False
      show ?thesis
      proof (cases "Probers (Prober mo)")
        case None
        with Some False given show ?thesis
          by (simp add: probeHandler_unknown_prober request_error_def unknown_prober_def
              StatusBadRequest_def)
      next
        case registered: (Some p)
        have no_error: "\<not> request_error fl Probers r conf"
          using Some False given registered known
          by (simp add: request_error_def missing_target_def unknown_prober_def)
        from False show ?thesis
        proof (rule not_malformed_timeout)
          assume "Get (Header r) ''X-Prometheus-Scrape-Timeout-Seconds'' = []"
          from probeHandler_default_timeout [where Probers = Probers and mo = mo and fl = fl,
              OF Some this given registered] no_error
          show ?thesis by simp
        next
          fix x
          assume "Get (Header r) ''X-Prometheus-Scrape-Timeout-Seconds'' \<noteq> []"
            and "ParseFloat fl (Get (Header r) ''X-Prometheus-Scrape-Timeout-Seconds'') = Inr x"
          from probeHandler_parsed_timeout [where Probers = Probers and mo = mo and fl = fl,
              OF Some this given registered] no_error
          show ?thesis by simp
        qed
      qed
    qed
  qed
qed

text \<open>The theorem at a request for the module tcp whose timeout header is abc.\<close>

theorem probeHandler_request_errors_witness:
  "probeHandler ex_float64 ex_Probers (ex_request ''abc'') ex_conf
     = Error (Sprintf ''Failed to parse timeout from Prometheus header: %s'' [''invalid syntax''])
         500
   \<and> request_error ex_float64 ex_Probers (ex_request ''abc'') ex_conf
   \<and> \<not> unknown_module (ex_request ''abc'') ex_conf
   \<and> malformed_timeout ex_float64 (ex_request ''abc'')"
proof -
  have k: "Modules ex_conf (requested_module (ex_request ''abc'')) = Some \<lparr>Prober = ''tcp''\<rparr>"
    by (simp add: requested_module_def ex_request_def ex_conf_def Get_def)
  have h: "Get (Header (ex_request ''abc'')) ''X-Prometheus-Scrape-Timeout-Seconds'' = ''abc''"
    by (simp add: ex_request_def Get_def)
  have f: "ParseFloat ex_float64 ''abc'' = Inl ''invalid syntax''"
    by (simp add: ex_float64_def)
  have p: "probeHandler ex_float64 ex_Probers (ex_request ''abc'') ex_conf
     = Error (Sprintf ''Failed to parse timeout from Prometheus header: %s'' [''invalid syntax''])
         500"
    using probeHandler_malformed_timeout [OF k, of ex_float64 "''invalid syntax''" ex_Probers]
    by (simp add: h f StatusInternalServerError_def)
  have u: "\<not> unknown_module (ex_request ''abc'') ex_conf"
    by (simp add: unknown_module_def k)
  have m: "malformed_timeout ex_float64 (ex_request ''abc'')"
    by (simp add: malformed_timeout_def h f)
  from probeHandler_request_errors [of ex_float64 ex_Probers "ex_request ''abc''" ex_conf] p u m
  show ?thesis by simp
qed

text \<open>
  Claim C4 as stated fails: a timeout header that does not parse is a request error, and
  the handler answers it with \<^verbatim>\<open>http.StatusInternalServerError\<close>, 500, which is not
  a 4xx status.
\<close>

theorem malformed_timeout_status_500_counterexample:
  "malformed_timeout ex_float64 (ex_request ''abc'')
   \<and> probeHandler ex_float64 ex_Probers (ex_request ''abc'') ex_conf
       = Error (Sprintf ''Failed to parse timeout from Prometheus header: %s'' [''invalid syntax''])
           StatusInternalServerError
   \<and> StatusInternalServerError = 500
   \<and> \<not> (400 \<le> StatusInternalServerError \<and> StatusInternalServerError < 500)"
proof -
  have k: "Modules ex_conf (requested_module (ex_request ''abc'')) = Some \<lparr>Prober = ''tcp''\<rparr>"
    by (simp add: requested_module_def ex_request_def ex_conf_def Get_def)
  have h: "Get (Header (ex_request ''abc'')) ''X-Prometheus-Scrape-Timeout-Seconds'' = ''abc''"
    by (simp add: ex_request_def Get_def)
  have f: "ParseFloat ex_float64 ''abc'' = Inl ''invalid syntax''"
    by (simp add: ex_float64_def)
  have m: "malformed_timeout ex_float64 (ex_request ''abc'')"
    by (simp add: malformed_timeout_def h f)
  have p: "probeHandler ex_float64 ex_Probers (ex_request ''abc'') ex_conf
     = Error (Sprintf ''Failed to parse timeout from Prometheus header: %s'' [''invalid syntax''])
         StatusInternalServerError"
    using probeHandler_malformed_timeout [OF k, of ex_float64 "''invalid syntax''" ex_Probers]
    by (simp add: h f)
  from m p show ?thesis by (simp add: StatusInternalServerError_def)
qed





end
